theory Spec2Isabelle
  imports Complex_Main
begin

section \<open>Tensors\<close>

text \<open>
  Modelled from the spec: the numerical framework the notebooks call (tensors, layers,
  loss, automatic differentiation, optimizer) is not in the repository. The notebooks
  "Part 3 - Training Neural Networks" and "Part 5 - Inference and Validation" drive it
  through a handful of calls; each operation below is what the spec and the notebooks'
  own text say of it. A tensor is a shape, an element type tag and the elements in
  row-major order. Element values are mathematical reals: class indices and 0/1
  comparison results are reals that happen to be integers, and floating-point rounding
  is not part of the model.
\<close>

datatype dtype = FloatT | LongT | ByteT

record tensor =
  shape :: "nat list"
  dtype :: dtype
  vals :: "real list"


text \<open>
  What the framework raises. \<open>ShapeError\<close>, \<open>DTypeError\<close> and \<open>NoGradFn\<close> are
  RuntimeErrors; \<open>DimError\<close> and \<open>TargetOutOfBounds\<close> are IndexErrors; \<open>ItemError\<close>
  is the ValueError of \<open>.item()\<close> on a tensor of more than one element;
  \<open>AttributeErr\<close>, \<open>ZeroDivision\<close> and \<open>NameErr\<close> are Python's own AttributeError,
  ZeroDivisionError and NameError. \<open>NanResult\<close> stands for the value nan, which the reals do not have:
  the framework returns nan for the mean of no elements and does not raise; a data
  loader never yields an empty batch, so no cell below reaches it with real data.
\<close>

datatype error =
  ShapeError | DTypeError | DimError | TargetOutOfBounds | NoGradFn | ItemError
  | AttributeErr | ZeroDivision | NameErr | NanResult

subsection \<open>Reshaping\<close>

text \<open>\<open>t.view(*s)\<close>: the same elements under another shape of the same size.\<close>

definition view :: "tensor \<Rightarrow> nat list \<Rightarrow> error + tensor" where
  "view t s = (if prod_list s = prod_list (shape t) then Inr (t\<lparr>shape := s\<rparr>) else Inl ShapeError)"

text \<open>
  \<open>images.view(images.shape[0], -1)\<close>: \<open>shape[0]\<close> raises on a 0-dimensional tensor, and
  the size \<open>-1\<close> cannot be inferred when the first size is 0.
\<close>

definition view_flat :: "tensor \<Rightarrow> error + tensor" where
  "view_flat t =
     (case shape t of
        [] \<Rightarrow> Inl DimError
      | n # rest \<Rightarrow> if n = 0 then Inl ShapeError else Inr (t\<lparr>shape := [n, prod_list rest]\<rparr>))"

subsection \<open>Lanes along a dimension\<close>

text \<open>
  The elements of a tensor of shape \<open>s\<close> along dimension \<open>d\<close>: one lane for every choice
  of the other indices, in the row-major order of those indices.
\<close>

definition lane_index :: "nat list \<Rightarrow> nat \<Rightarrow> nat \<Rightarrow> nat \<Rightarrow> nat" where
  "lane_index s d i b =
     (let B = s ! d; R = prod_list (drop (Suc d) s) in (i div R) * B * R + b * R + i mod R)"

definition lanes :: "nat list \<Rightarrow> nat \<Rightarrow> real list \<Rightarrow> real list list" where
  "lanes s d xs =
     map (\<lambda>i. map (\<lambda>b. xs ! lane_index s d i b) [0..<s ! d])
       [0..<prod_list (take d s) * prod_list (drop (Suc d) s)]"

subsection \<open>topk with k = 1\<close>

text \<open>
  The largest element of a lane and its index. Among equal largest elements the first
  one is taken (the framework does not say which one it returns).
\<close>

fun top1 :: "real list \<Rightarrow> (real \<times> nat) option" where
  "top1 [] = None"
| "top1 (x # xs) =
     (case top1 xs of
        None \<Rightarrow> Some (x, 0)
      | Some (v, j) \<Rightarrow> if x < v then Some (v, Suc j) else Some (x, 0))"

text \<open>
  \<open>t.topk(1, dim=d)\<close> returns the pair (values, indices), both of the shape of \<open>t\<close> with
  size 1 at dimension \<open>d\<close>. It raises when \<open>t\<close> has no dimension \<open>d\<close> and when that
  dimension is empty (k = 1 is out of range).
\<close>

definition topk :: "tensor \<Rightarrow> nat \<Rightarrow> error + tensor \<times> tensor" where
  "topk t d =
     (if length (shape t) \<le> d then Inl DimError
      else if shape t ! d = 0 then Inl DimError
      else
        (let tops = map (\<lambda>l. the (top1 l)) (lanes (shape t) d (vals t));
             s = (shape t)[d := 1]
         in Inr (\<lparr>shape = s, dtype = dtype t, vals = map fst tops\<rparr>,
                 \<lparr>shape = s, dtype = LongT, vals = map (\<lambda>p. real (snd p)) tops\<rparr>)))"

text \<open>
  \<open>torch.topk(t, k=1)\<close> takes the last dimension; a 0-dimensional tensor is its own
  largest element, at index 0.
\<close>

definition topk_last :: "tensor \<Rightarrow> error + tensor \<times> tensor" where
  "topk_last t =
     (if shape t = [] then Inr (t, \<lparr>shape = [], dtype = LongT, vals = [0]\<rparr>)
      else topk t (length (shape t) - 1))"

subsection \<open>Elementwise operations\<close>


text \<open>
  Broadcasting: the shorter shape is padded with leading 1s; two sizes are compatible
  when they are equal or one of them is 1, and a size 1 is repeated.
\<close>

definition pad_shape :: "nat \<Rightarrow> nat list \<Rightarrow> nat list" where
  "pad_shape n s = replicate (n - length s) 1 @ s"

definition broadcast_shapes :: "nat list \<Rightarrow> nat list \<Rightarrow> nat list option" where
  "broadcast_shapes a b =
     (let n = max (length a) (length b); ab = zip (pad_shape n a) (pad_shape n b)
      in if list_all (\<lambda>(x, y). x = y \<or> x = 1 \<or> y = 1) ab
         then Some (map (\<lambda>(x, y). if x = 1 then y else x) ab)
         else None)"

fun expand :: "nat list \<Rightarrow> nat list \<Rightarrow> real list \<Rightarrow> real list" where
  "expand (d # ds) (t # ts) xs =
     (let c = prod_list ds;
          blocks = (if d = t then map (\<lambda>i. take c (drop (i * c) xs)) [0..<d]
                    else replicate t (take c xs))
      in concat (map (expand ds ts) blocks))"
| "expand _ _ xs = xs"

text \<open>\<open>a == b\<close>: a byte tensor of the broadcast shape, 1 where the elements agree.\<close>

definition torch_eq :: "tensor \<Rightarrow> tensor \<Rightarrow> error + tensor" where
  "torch_eq a b =
     (case broadcast_shapes (shape a) (shape b) of
        None \<Rightarrow> Inl ShapeError
      | Some s \<Rightarrow>
          Inr \<lparr>shape = s, dtype = ByteT,
               vals = map2 (\<lambda>x y. if x = y then 1 else 0)
                        (expand (pad_shape (length s) (shape a)) s (vals a))
                        (expand (pad_shape (length s) (shape b)) s (vals b))\<rparr>)"

text \<open>\<open>t.type(torch.FloatTensor)\<close>: the same values as floats.\<close>

definition type_FloatTensor :: "tensor \<Rightarrow> tensor" where
  "type_FloatTensor t = t\<lparr>dtype := FloatT\<rparr>"

text \<open>
  \<open>torch.mean\<close>: "mean is not implemented for type torch.ByteTensor" (the notebook's own
  words); on a float tensor the 0-dimensional tensor of the average.
\<close>

definition torch_mean :: "tensor \<Rightarrow> error + tensor" where
  "torch_mean t =
     (if dtype t \<noteq> FloatT then Inl DTypeError
      else if vals t = [] then Inl NanResult
      else Inr \<lparr>shape = [], dtype = FloatT, vals = [sum_list (vals t) / real (length (vals t))]\<rparr>)"

text \<open>\<open>t.item()\<close>: the value of a tensor of one element.\<close>

definition item :: "tensor \<Rightarrow> error + real" where
  "item t = (case vals t of [v] \<Rightarrow> Inr v | _ \<Rightarrow> Inl ItemError)"

section \<open>The accuracy of one batch\<close>

text \<open>No cell of the notebooks has a \<open>try\<close>: a call that raises ends the cell.\<close>

definition bindE :: "error + 'a \<Rightarrow> ('a \<Rightarrow> error + 'b) \<Rightarrow> error + 'b" where
  "bindE m f = (case m of Inl e \<Rightarrow> Inl e | Inr a \<Rightarrow> f a)"


definition equals_of :: "tensor \<Rightarrow> tensor \<Rightarrow> error + tensor" where
  "equals_of top_cls labels =
     bindE (view labels (shape top_cls)) (\<lambda>labels'. torch_eq top_cls labels')"

definition accuracy_of :: "tensor \<Rightarrow> error + tensor" where
  "accuracy_of equals = torch_mean (type_FloatTensor equals)"


text \<open>
  Part 5, inside both validation loops:
  \<^verbatim>\<open>
  top_p, top_class = torch.topk(log_test_ps, k=1)
  compare_result = top_class == test_labels.view(*top_class.shape)
  ... torch.mean(compare_result.type(torch.FloatTensor))
  \<close>
\<close>

definition top_class_of :: "tensor \<Rightarrow> error + tensor" where
  "top_class_of log_test_ps =
     bindE (topk_last log_test_ps) (\<lambda>(top_p, top_cls). Inr top_cls)"

definition batch_accuracy :: "tensor \<Rightarrow> tensor \<Rightarrow> error + tensor" where
  "batch_accuracy log_test_ps test_labels =
     bindE (top_class_of log_test_ps) (\<lambda>top_cls.
     bindE (equals_of top_cls test_labels) (\<lambda>compare_result. accuracy_of compare_result))"





section \<open>Layers\<close>

text \<open>
  Modelled from the spec: the layers are the framework's ("a fixed-topology stack of
  affine transformations and point-wise non-linearities ending in a log-probability
  output"). \<open>nn.Linear\<close>: \<open>y = x W\<^sup>T + b\<close> along the last dimension of a float tensor,
  with \<open>W\<close> of shape (out, in) and \<open>b\<close> of shape (out).
\<close>

definition dot :: "real list \<Rightarrow> real list \<Rightarrow> real" where
  "dot xs ys = sum_list (map2 (*) xs ys)"

definition linear :: "tensor \<Rightarrow> tensor \<Rightarrow> tensor \<Rightarrow> error + tensor" where
  "linear x W b =
     (case shape W of
        [out, inn] \<Rightarrow>
          if dtype x \<noteq> FloatT then Inl DTypeError
          else if shape x = [] \<or> last (shape x) \<noteq> inn \<or> shape b \<noteq> [out] then Inl ShapeError
          else
            (let d = length (shape x) - 1
             in Inr \<lparr>shape = (shape x)[d := out], dtype = FloatT,
                     vals = concat (map (\<lambda>r. map2 (\<lambda>w bj. dot r w + bj)
                                                (lanes [out, inn] 1 (vals W)) (vals b))
                                     (lanes (shape x) d (vals x)))\<rparr>)
      | _ \<Rightarrow> Inl ShapeError)"

definition relu :: "tensor \<Rightarrow> tensor" where
  "relu x = x\<lparr>vals := map (max 0) (vals x)\<rparr>"

text \<open>
  \<open>F.log_softmax(x, dim=d)\<close>: every element minus the logarithm of the sum of the
  exponentials of its lane.
\<close>

definition log_softmax :: "tensor \<Rightarrow> nat \<Rightarrow> error + tensor" where
  "log_softmax x d =
     (if length (shape x) \<le> d then Inl DimError
      else
        (let B = shape x ! d; R = prod_list (drop (Suc d) (shape x));
             lse = map (\<lambda>l. ln (sum_list (map exp l))) (lanes (shape x) d (vals x))
         in Inr (x\<lparr>vals := map (\<lambda>k. vals x ! k - lse ! ((k div (B * R)) * R + k mod R))
                                [0..<length (vals x)]\<rparr>)))"

text \<open>
  The random generator is the sequence of raw draws still to come; a draw is a 24-bit
  number, read as a real in [0, 1).
\<close>

type_synonym rng = "nat \<Rightarrow> nat"

definition uniform :: "nat \<Rightarrow> real" where
  "uniform k = real (k mod 16777216) / 16777216"

text \<open>
  Modelled from the spec: \<open>nn.Dropout\<close> is the framework's. "Dropout: a regularization
  technique that randomly zeroes a fraction of unit activations during training only":
  in training mode every element is zeroed with probability \<open>p\<close> (kept when its draw is
  below \<open>1 - p\<close>) and the kept ones are scaled by \<open>1 / (1 - p)\<close>; in evaluation mode the
  module is the identity and draws nothing.
\<close>

definition dropout :: "real \<Rightarrow> bool \<Rightarrow> rng \<Rightarrow> tensor \<Rightarrow> tensor \<times> rng" where
  "dropout p training g x =
     (if training
      then (let n = length (vals x);
                keep = map (\<lambda>i. uniform (g i) < 1 - p) [0..<n]
            in (x\<lparr>vals := map2 (\<lambda>k v. if k then v / (1 - p) else 0) keep (vals x)\<rparr>,
                \<lambda>i. g (i + n)))
      else (x, g))"

text \<open>
  Part 5, the model with dropout:
  \<^verbatim>\<open>
  class NetworkDropOut(nn.Module):
      def __init__(self):
          self.fc1 = nn.Linear(784, 256)
          self.fc2 = nn.Linear(256, 128)
          self.fc3 = nn.Linear(128, 64)
          self.fc4 = nn.Linear(64, 10)
          self.dropout = nn.Dropout(p=0.3)
      def forward(self, x):
          x = self.dropout(F.relu(self.fc1(x)))
          x = self.dropout(F.relu(self.fc2(x)))
          x = self.dropout(F.relu(self.fc3(x)))
          x = F.log_softmax(self.fc4(x), dim=1)
          return x
  \<close>
  The weights are whatever the constructor drew and training made of them; the dropout
  probability is a field, 0.3 in the notebook.
\<close>

record NetworkDropOut =
  fc1_weight :: tensor
  fc1_bias :: tensor
  fc2_weight :: tensor
  fc2_bias :: tensor
  fc3_weight :: tensor
  fc3_bias :: tensor
  fc4_weight :: tensor
  fc4_bias :: tensor
  dropout_p :: real

definition NetworkDropOut_forward ::
  "NetworkDropOut \<Rightarrow> bool \<Rightarrow> rng \<Rightarrow> tensor \<Rightarrow> error + tensor \<times> rng" where
  "NetworkDropOut_forward m training g x =
     bindE (linear x (fc1_weight m) (fc1_bias m)) (\<lambda>h1.
       case dropout (dropout_p m) training g (relu h1) of (x1, g1) \<Rightarrow>
     bindE (linear x1 (fc2_weight m) (fc2_bias m)) (\<lambda>h2.
       case dropout (dropout_p m) training g1 (relu h2) of (x2, g2) \<Rightarrow>
     bindE (linear x2 (fc3_weight m) (fc3_bias m)) (\<lambda>h3.
       case dropout (dropout_p m) training g2 (relu h3) of (x3, g3) \<Rightarrow>
     bindE (linear x3 (fc4_weight m) (fc4_bias m)) (\<lambda>h4.
     bindE (log_softmax h4 1) (\<lambda>out. Inr (out, g3))))))"

text \<open>The same network with the dropout lines removed: every unit takes part.\<close>

definition Network_no_dropout_forward :: "NetworkDropOut \<Rightarrow> tensor \<Rightarrow> error + tensor" where
  "Network_no_dropout_forward m x =
     bindE (linear x (fc1_weight m) (fc1_bias m)) (\<lambda>h1.
     bindE (linear (relu h1) (fc2_weight m) (fc2_bias m)) (\<lambda>h2.
     bindE (linear (relu h2) (fc3_weight m) (fc3_bias m)) (\<lambda>h3.
     bindE (linear (relu h3) (fc4_weight m) (fc4_bias m)) (\<lambda>h4.
     log_softmax h4 1))))"

section \<open>Parameters, gradients, loss and optimizer\<close>

text \<open>
  Modelled from the spec: parameters, gradient buffers, the loss and the optimizer are
  the framework's. "Parameter tensor: a mutable multi-dimensional array [...] mutated in
  place by the optimizer"; "Gradient accumulator: attached to each parameter tensor". A
  parameter is a tensor with a gradient buffer, unset (\<open>None\<close>) until a backward pass
  fills it.
\<close>

record param =
  p_data :: tensor
  p_grad :: "tensor option"

text \<open>The framework calls a cell makes, in order; \<open>Forward\<close> records the model's mode.\<close>

datatype call = ZeroGrad | Forward bool | Criterion | Backward | OptStep | ModelEval | ModelTrain

text \<open>
  What a cell can change: the parameters of \<open>model\<close>, the flag \<open>model.training\<close>, the
  global gradient-tracking switch, the random generator and the optimizer's own state.
  \<open>calls\<close> is the trace of framework calls so far.
\<close>

record 'o notebook =
  params :: "param list"
  training :: bool
  grad_enabled :: bool
  generator :: rng
  opt_state :: 'o
  calls :: "call list"

text \<open>
  The network is a collaborator. \<open>net_forward training g ws x\<close> is its output on the
  batch \<open>x\<close> under the parameter values \<open>ws\<close>, with the generator it leaves behind;
  \<open>net_vjp training g ws x u\<close> is what automatic differentiation makes of that same
  computation: the gradient for every parameter, given the gradient \<open>u\<close> with respect to
  the output.
\<close>

record net =
  net_forward :: "bool \<Rightarrow> rng \<Rightarrow> tensor list \<Rightarrow> tensor \<Rightarrow> error + tensor \<times> rng"
  net_vjp :: "bool \<Rightarrow> rng \<Rightarrow> tensor list \<Rightarrow> tensor \<Rightarrow> tensor \<Rightarrow> tensor list"

text \<open>An output remembers how to differentiate itself when gradient tracking was on.\<close>

record model_output =
  out_value :: tensor
  grad_fn :: "(tensor \<Rightarrow> tensor list) option"

text \<open>
  The loss is a 0-dimensional tensor; with gradient tracking on it carries the gradients
  a backward pass will deposit, one for every parameter.
\<close>

record loss =
  loss_tensor :: tensor
  loss_grads :: "tensor list option"

definition bindS ::
  "(error + 'a) \<times> 's \<Rightarrow> ('a \<Rightarrow> 's \<Rightarrow> (error + 'b) \<times> 's) \<Rightarrow> (error + 'b) \<times> 's" where
  "bindS m f = (case m of (Inl e, s) \<Rightarrow> (Inl e, s) | (Inr a, s) \<Rightarrow> f a s)"

text \<open>\<open>model(x)\<close> and \<open>model.forward(x)\<close>.\<close>

definition model_call :: "net \<Rightarrow> tensor \<Rightarrow> 'o notebook \<Rightarrow> (error + model_output) \<times> 'o notebook" where
  "model_call n x s =
     (let s' = s\<lparr>calls := calls s @ [Forward (training s)]\<rparr>;
          ws = map p_data (params s)
      in case net_forward n (training s) (generator s) ws x of
           Inl e \<Rightarrow> (Inl e, s')
         | Inr (y, g') \<Rightarrow>
             (Inr \<lparr>out_value = y,
                   grad_fn = (if grad_enabled s
                              then Some (net_vjp n (training s) (generator s) ws x)
                              else None)\<rparr>,
              s'\<lparr>generator := g'\<rparr>))"

text \<open>
  \<open>nn.NLLLoss()\<close> on a batch-by-class tensor of log-probabilities and a tensor of class
  labels: minus the log-probability of the true label, averaged over the batch.
\<close>

definition nll_loss :: "tensor \<Rightarrow> tensor \<Rightarrow> error + tensor" where
  "nll_loss log_ps labels =
     (case shape log_ps of
        [N, C] \<Rightarrow>
          if shape labels \<noteq> [N] then Inl ShapeError
          else if dtype log_ps \<noteq> FloatT \<or> dtype labels \<noteq> LongT then Inl DTypeError
          else if \<not> list_all (\<lambda>l. 0 \<le> l \<and> l < real C) (vals labels) then Inl TargetOutOfBounds
          else if N = 0 then Inl NanResult
          else Inr \<lparr>shape = [], dtype = FloatT,
                    vals = [- sum_list (map (\<lambda>i. vals log_ps ! (i * C + nat \<lfloor>vals labels ! i\<rfloor>))
                                         [0..<N]) / real N]\<rparr>
      | _ \<Rightarrow> Inl ShapeError)"

text \<open>The gradient of that loss with respect to the log-probabilities.\<close>

definition nll_loss_grad :: "tensor \<Rightarrow> tensor \<Rightarrow> tensor" where
  "nll_loss_grad log_ps labels =
     (let N = shape log_ps ! 0; C = shape log_ps ! 1
      in \<lparr>shape = shape log_ps, dtype = FloatT,
           vals = concat (map (\<lambda>i. map (\<lambda>c. if c = nat \<lfloor>vals labels ! i\<rfloor> then - 1 / real N else 0)
                                         [0..<C]) [0..<N])\<rparr>)"

definition criterion :: "model_output \<Rightarrow> tensor \<Rightarrow> 'o notebook \<Rightarrow> (error + loss) \<times> 'o notebook" where
  "criterion y labels s =
     (let s' = s\<lparr>calls := calls s @ [Criterion]\<rparr>
      in case nll_loss (out_value y) labels of
           Inl e \<Rightarrow> (Inl e, s')
         | Inr l \<Rightarrow>
             (Inr \<lparr>loss_tensor = l,
                   loss_grads = map_option (\<lambda>f. f (nll_loss_grad (out_value y) labels)) (grad_fn y)\<rparr>,
              s'))"

text \<open>
  Modelled from the spec: the backward pass is the framework's. "Gradient accumulator:
  attached to each parameter tensor [...] populated by the backward pass", with
  "accumulate unless explicitly cleared" semantics: \<open>loss.backward()\<close> adds each gradient
  to the parameter's buffer ("gradients are accumulated", cell 14 of Part 3); an unset
  buffer takes the gradient as it is. The framework refuses a gradient whose shape is
  not the parameter's, and a loss computed with gradient tracking off; a refused
  backward pass is modelled as leaving every buffer as it was.
\<close>

definition tensor_add :: "tensor \<Rightarrow> tensor \<Rightarrow> tensor" where
  "tensor_add a b = a\<lparr>vals := map2 (+) (vals a) (vals b)\<rparr>"

definition deposit :: "param \<Rightarrow> tensor \<Rightarrow> param" where
  "deposit p g = p\<lparr>p_grad := Some (case p_grad p of None \<Rightarrow> g | Some a \<Rightarrow> tensor_add a g)\<rparr>"

definition accumulate_grad :: "param \<Rightarrow> tensor \<Rightarrow> error + param" where
  "accumulate_grad p g =
     (if shape g \<noteq> shape (p_data p) then Inl ShapeError else Inr (deposit p g))"

fun accumulate_all :: "param list \<Rightarrow> tensor list \<Rightarrow> error + param list" where
  "accumulate_all [] [] = Inr []"
| "accumulate_all (p # ps) (g # gs) =
     bindE (accumulate_grad p g) (\<lambda>p'. bindE (accumulate_all ps gs) (\<lambda>ps'. Inr (p' # ps')))"
| "accumulate_all _ _ = Inl ShapeError"

definition backward :: "loss \<Rightarrow> 'o notebook \<Rightarrow> (error + unit) \<times> 'o notebook" where
  "backward l s =
     (let s' = s\<lparr>calls := calls s @ [Backward]\<rparr>
      in case loss_grads l of
           None \<Rightarrow> (Inl NoGradFn, s')
         | Some gs \<Rightarrow>
             (case accumulate_all (params s) gs of
                Inl e \<Rightarrow> (Inl e, s')
              | Inr ps' \<Rightarrow> (Inr (), s'\<lparr>params := ps'\<rparr>)))"

text \<open>\<open>optimizer.zero_grad()\<close>: every buffer that is set becomes zeros.\<close>

definition zeros_like :: "tensor \<Rightarrow> tensor" where
  "zeros_like t = t\<lparr>vals := map (\<lambda>_. 0) (vals t)\<rparr>"

definition zero_grad :: "'o notebook \<Rightarrow> 'o notebook" where
  "zero_grad s =
     s\<lparr>params := map (\<lambda>p. p\<lparr>p_grad := map_option zeros_like (p_grad p)\<rparr>) (params s),
       calls := calls s @ [ZeroGrad]\<rparr>"

text \<open>Cleared buffers: every one is unset or holds zeros only.\<close>

definition cleared :: "'o notebook \<Rightarrow> bool" where
  "cleared s =
     list_all (\<lambda>p. case p_grad p of None \<Rightarrow> True | Some z \<Rightarrow> list_all (\<lambda>v. v = 0) (vals z))
       (params s)"

text \<open>
  An optimizer is its update rule on the parameters and on its own state.
  \<open>optim.SGD(model.parameters(), lr)\<close> has no state: every parameter with a gradient
  moves against it, scaled by the learning rate. (\<open>optim.Adam\<close>, used in Part 5, is left
  as a parameter of the cells.)
\<close>

type_synonym 'o optimizer = "'o \<Rightarrow> param list \<Rightarrow> 'o \<times> param list"

definition sgd_update :: "real \<Rightarrow> param \<Rightarrow> param" where
  "sgd_update lr p =
     (case p_grad p of
        None \<Rightarrow> p
      | Some g \<Rightarrow> p\<lparr>p_data := (p_data p)\<lparr>vals := map2 (\<lambda>w d. w - lr * d) (vals (p_data p)) (vals g)\<rparr>\<rparr>)"

definition SGD :: "real \<Rightarrow> unit optimizer" where
  "SGD lr = (\<lambda>u ps. (u, map (sgd_update lr) ps))"

definition step :: "'o optimizer \<Rightarrow> 'o notebook \<Rightarrow> 'o notebook" where
  "step opt s =
     (case opt (opt_state s) (params s) of
        (st, ps) \<Rightarrow> s\<lparr>params := ps, opt_state := st, calls := calls s @ [OptStep]\<rparr>)"

text \<open>\<open>model.eval()\<close>, \<open>model.train()\<close> and the block \<open>with torch.no_grad():\<close>, which
  puts the switch back however the block ends.\<close>

definition model_eval :: "'o notebook \<Rightarrow> 'o notebook" where
  "model_eval s = s\<lparr>training := False, calls := calls s @ [ModelEval]\<rparr>"

definition model_train :: "'o notebook \<Rightarrow> 'o notebook" where
  "model_train s = s\<lparr>training := True, calls := calls s @ [ModelTrain]\<rparr>"

definition with_no_grad ::
  "('o notebook \<Rightarrow> (error + 'a) \<times> 'o notebook) \<Rightarrow> 'o notebook \<Rightarrow> (error + 'a) \<times> 'o notebook" where
  "with_no_grad body s =
     (case body (s\<lparr>grad_enabled := False\<rparr>) of (r, s') \<Rightarrow> (r, s'\<lparr>grad_enabled := grad_enabled s\<rparr>))"

text \<open>A \<open>for\<close> loop over a data loader, carrying the variables the body updates.\<close>

fun for_each ::
  "('b \<Rightarrow> 'a \<Rightarrow> 's \<Rightarrow> (error + 'a) \<times> 's) \<Rightarrow> 'b list \<Rightarrow> 'a \<Rightarrow> 's \<Rightarrow> (error + 'a) \<times> 's" where
  "for_each body [] a s = (Inr a, s)"
| "for_each body (b # bs) a s = bindS (body b a s) (\<lambda>a' s'. for_each body bs a' s')"

section \<open>Part 3: the cells\<close>

text \<open>
  Modelled from the spec: the layers' constructors are the framework's. "Gradient buffers
  must read as empty/unset immediately after model construction": \<open>model =
  nn.Sequential(...)\<close> gives fresh parameters with no gradient yet, in training mode.
\<close>

definition new_model :: "tensor list \<Rightarrow> param list" where
  "new_model ws = map (\<lambda>w. \<lparr>p_data = w, p_grad = None\<rparr>) ws"

definition fresh_notebook :: "tensor list \<Rightarrow> rng \<Rightarrow> 'o \<Rightarrow> 'o notebook" where
  "fresh_notebook ws g st =
     \<lparr>params = new_model ws, training = True, grad_enabled = True, generator = g,
      opt_state = st, calls = []\<rparr>"

text \<open>
  Cell 11, after the model is built:
  \<^verbatim>\<open>
  images = images.view(images.shape[0], -1)
  logits = model(images)
  loss = criterion(logits, labels)
  \<close>
\<close>

definition cell_11 :: "net \<Rightarrow> tensor \<Rightarrow> tensor \<Rightarrow> 'o notebook \<Rightarrow> (error + loss) \<times> 'o notebook" where
  "cell_11 n images labels s =
     bindS (view_flat images, s) (\<lambda>images s.
     bindS (model_call n images s) (\<lambda>logits s.
     criterion logits labels s))"

text \<open>
  Cell 12 prints \<open>model[0].weight.grad\<close>, the buffer of the first parameter, before and
  after \<open>loss.backward()\<close>; the cell returns the two values printed.
\<close>

definition cell_12 ::
  "loss \<Rightarrow> 'o notebook \<Rightarrow> (error + tensor option \<times> tensor option) \<times> 'o notebook" where
  "cell_12 l s =
     (case params s of
        [] \<Rightarrow> (Inl DimError, s)
      | w # _ \<Rightarrow>
          bindS (backward l s) (\<lambda>_ s'.
            case params s' of
              [] \<Rightarrow> (Inl DimError, s')
            | w' # _ \<Rightarrow> (Inr (p_grad w, p_grad w'), s')))"

text \<open>
  Cell 14 without its first line:
  \<^verbatim>\<open>
  output = model(images)
  loss = criterion(output, labels)
  loss.backward()
  \<close>
  and cell 14 as it is, with \<open>optimizer.zero_grad()\<close> in front (\<open>images\<close> already resized).
\<close>

definition forward_backward :: "net \<Rightarrow> tensor \<Rightarrow> tensor \<Rightarrow> 'o notebook \<Rightarrow> (error + loss) \<times> 'o notebook" where
  "forward_backward n images labels s =
     bindS (model_call n images s) (\<lambda>y s.
     bindS (criterion y labels s) (\<lambda>l s.
     bindS (backward l s) (\<lambda>_ s. (Inr l, s))))"

definition cell_14 :: "net \<Rightarrow> tensor \<Rightarrow> tensor \<Rightarrow> 'o notebook \<Rightarrow> (error + loss) \<times> 'o notebook" where
  "cell_14 n images labels s = forward_backward n images labels (zero_grad s)"

text \<open>
  The training pass of every loop of the two notebooks:
  \<^verbatim>\<open>
  optimizer.zero_grad()
  logits = model.forward(images)
  loss = criterion(logits, labels)
  loss.backward()
  optimizer.step()
  \<close>
\<close>

definition training_pass ::
  "net \<Rightarrow> 'o optimizer \<Rightarrow> tensor \<Rightarrow> tensor \<Rightarrow> 'o notebook \<Rightarrow> (error + loss) \<times> 'o notebook" where
  "training_pass n opt images labels s =
     bindS (model_call n images (zero_grad s)) (\<lambda>logits s.
     bindS (criterion logits labels s) (\<lambda>l s.
     bindS (backward l s) (\<lambda>_ s.
     (Inr l, step opt s))))"

text \<open>
  The body of the training loop of Part 3 (and of the dropout loop of Part 5):
  \<^verbatim>\<open>
  images = images.view(images.shape[0], -1)
  <the training pass>
  running_loss += loss.item()
  \<close>
\<close>

definition train_batch_flat ::
  "net \<Rightarrow> 'o optimizer \<Rightarrow> tensor \<times> tensor \<Rightarrow> real \<Rightarrow> 'o notebook \<Rightarrow> (error + real) \<times> 'o notebook" where
  "train_batch_flat n opt batch running_loss s =
     (case batch of (images, labels) \<Rightarrow>
        bindS (view_flat images, s) (\<lambda>images s.
        bindS (training_pass n opt images labels s) (\<lambda>l s.
        bindS (item (loss_tensor l), s) (\<lambda>v s.
        (Inr (running_loss + v), s)))))"


section \<open>Part 5: the cells\<close>

text \<open>
  The training loop of the first model calls the model on the images as they come:
  \<^verbatim>\<open>
  <the training pass>
  running_loss += loss.item()
  \<close>
\<close>

definition train_batch ::
  "net \<Rightarrow> 'o optimizer \<Rightarrow> tensor \<times> tensor \<Rightarrow> real \<Rightarrow> 'o notebook \<Rightarrow> (error + real) \<times> 'o notebook" where
  "train_batch n opt batch running_loss s =
     (case batch of (images, labels) \<Rightarrow>
        bindS (training_pass n opt images labels s) (\<lambda>l s.
        bindS (item (loss_tensor l), s) (\<lambda>v s.
        (Inr (running_loss + v), s))))"

text \<open>
  The first validation loop:
  \<^verbatim>\<open>
  with torch.no_grad():
      for test_images, test_labels in testloader:
          log_test_ps = model(test_images)
          top_p, top_class = torch.topk(log_test_ps, k=1)
          compare_result = top_class == test_labels.view(*top_class.shape)
          accuracy = torch.mean(compare_result.type(torch.FloatTensor))
  print(f'Accuracy: {accuracy.item()*100}%')
  \<close>
  The variable \<open>accuracy\<close> outlives the loop (\<open>None\<close>: the name is not bound). The result
  is the number printed.
\<close>

definition first_val_batch ::
  "net \<Rightarrow> tensor \<times> tensor \<Rightarrow> tensor option \<Rightarrow> 'o notebook \<Rightarrow> (error + tensor option) \<times> 'o notebook" where
  "first_val_batch n batch accuracy s =
     (case batch of (test_images, test_labels) \<Rightarrow>
        bindS (model_call n test_images s) (\<lambda>log_test_ps s.
        bindS (batch_accuracy (out_value log_test_ps) test_labels, s) (\<lambda>a s.
        (Inr (Some a), s))))"

definition first_validation ::
  "net \<Rightarrow> (tensor \<times> tensor) list \<Rightarrow> tensor option \<Rightarrow> 'o notebook \<Rightarrow> (error + real) \<times> 'o notebook" where
  "first_validation n testloader accuracy s =
     bindS (with_no_grad (for_each (first_val_batch n) testloader accuracy) s) (\<lambda>accuracy s.
       case accuracy of
         None \<Rightarrow> (Inl NameErr, s)
       | Some a \<Rightarrow> bindS (item a, s) (\<lambda>v s. (Inr (v * 100), s)))"


text \<open>
  The validation of the model with dropout:
  \<^verbatim>\<open>
  test_loss = 0
  accuracy = 0
  with torch.no_grad():
      model.eval()
      for test_images, test_labels in testloader:
          test_images = test_images.view(test_images.shape[0], -1)
          test_log_ps = model(test_images)
          top_p, top_class = torch.topk(test_log_ps, k=1)
          compare_prediction = top_class == test_labels.view(*top_class.shape)
          accuracy += torch.mean(compare_prediction.type(torch.FloatTensor))
          test_loss += criterion(test_log_ps, test_labels)
  model.train()
  \<close>
  An accumulator is the Python integer 0 (\<open>None\<close>) until a tensor is added to it.
\<close>

definition py_add :: "tensor option \<Rightarrow> tensor \<Rightarrow> tensor option" where
  "py_add acc t = (case acc of None \<Rightarrow> Some t | Some a \<Rightarrow> Some (tensor_add a t))"

definition dropout_val_batch ::
  "net \<Rightarrow> tensor \<times> tensor \<Rightarrow> tensor option \<times> tensor option \<Rightarrow> 'o notebook
     \<Rightarrow> (error + tensor option \<times> tensor option) \<times> 'o notebook" where
  "dropout_val_batch n batch acc s =
     (case batch of (test_images, test_labels) \<Rightarrow>
      case acc of (accuracy, test_loss) \<Rightarrow>
        bindS (view_flat test_images, s) (\<lambda>test_images s.
        bindS (model_call n test_images s) (\<lambda>test_log_ps s.
        bindS (batch_accuracy (out_value test_log_ps) test_labels, s) (\<lambda>a s.
        bindS (criterion test_log_ps test_labels s) (\<lambda>l s.
        (Inr (py_add accuracy a, py_add test_loss (loss_tensor l)), s))))))"

definition dropout_validation ::
  "net \<Rightarrow> (tensor \<times> tensor) list \<Rightarrow> 'o notebook
     \<Rightarrow> (error + tensor option \<times> tensor option) \<times> 'o notebook" where
  "dropout_validation n testloader s =
     bindS (with_no_grad (\<lambda>s. for_each (dropout_val_batch n) testloader (None, None) (model_eval s)) s)
       (\<lambda>acc s. (Inr acc, model_train s))"

text \<open>
  One epoch of the dropout loop, with what it prints at the end:
  \<^verbatim>\<open>
  training_loss.append(train_loss/len(trainloader))
  testing_loss.append(test_loss.item()/len(testloader))
  print(f"Epoch {epoch} Train Loss: {train_loss/ len(trainloader)}")
  print(f"Epoch {epoch} Test Loss: {test_loss/ len(testloader)}")
  print(f"Epoch {epoch} Accuracy: {accuracy/len(testloader)}")
  \<close>
  With an empty test loader \<open>test_loss\<close> is still the integer 0, which has no \<open>item\<close>.
\<close>

definition tensor_div :: "tensor \<Rightarrow> nat \<Rightarrow> tensor" where
  "tensor_div t k = t\<lparr>vals := map (\<lambda>v. v / real k) (vals t)\<rparr>"



section \<open>What a cell leaves untouched\<close>

text \<open>
  \<open>pure_read A s s'\<close>: from \<open>s\<close> to \<open>s'\<close> no parameter value, no gradient buffer and no
  optimizer state has changed, gradient tracking is as it was, and the framework calls
  made in between are all in \<open>A\<close>.
\<close>

definition pure_read :: "call set \<Rightarrow> 'o notebook \<Rightarrow> 'o notebook \<Rightarrow> bool" where
  "pure_read A s s' =
     (params s' = params s \<and> opt_state s' = opt_state s \<and> grad_enabled s' = grad_enabled s
      \<and> take (length (calls s)) (calls s') = calls s
      \<and> set (drop (length (calls s)) (calls s')) \<subseteq> A)"

section \<open>A small network for the examples\<close>

text \<open>
  The examples below run the cells on a network small enough to follow by hand: one
  parameter, a bias \<open>b\<close> of shape (C), added to every row of a batch of shape (N, C).
  Its gradient is the column sums of the gradient of the output.
\<close>

definition example_net :: net where
  "example_net =
     \<lparr>net_forward = (\<lambda>training g ws x.
        case ws of
          [b] \<Rightarrow>
            (case shape x of
               [N, C] \<Rightarrow>
                 if shape b = [C]
                 then Inr (x\<lparr>vals := concat (map (\<lambda>r. map2 (+) r (vals b)) (lanes [N, C] 1 (vals x)))\<rparr>, g)
                 else Inl ShapeError
             | _ \<Rightarrow> Inl ShapeError)
        | _ \<Rightarrow> Inl ShapeError),
      net_vjp = (\<lambda>training g ws x u.
        case ws of
          [b] \<Rightarrow> [b\<lparr>vals := map (\<lambda>c. sum_list (map (\<lambda>l. l ! c) (lanes (shape u) 1 (vals u))))
                                [0..<length (vals b)]\<rparr>]
        | _ \<Rightarrow> [])\<rparr>"

definition example_bias :: tensor where
  "example_bias = \<lparr>shape = [2], dtype = FloatT, vals = [0, 0]\<rparr>"

definition example_notebook :: "unit notebook" where
  "example_notebook = fresh_notebook [example_bias] (\<lambda>i. 0) ()"

text \<open>Two batches of one example each, and labels: class 0, and a class the network lacks.\<close>

definition images_a :: tensor where
  "images_a = \<lparr>shape = [1, 2], dtype = FloatT, vals = [-1, -2]\<rparr>"

definition images_b :: tensor where
  "images_b = \<lparr>shape = [1, 2], dtype = FloatT, vals = [-2, -1]\<rparr>"


definition label_0 :: tensor where
  "label_0 = \<lparr>shape = [1], dtype = LongT, vals = [0]\<rparr>"

definition label_1 :: tensor where
  "label_1 = \<lparr>shape = [1], dtype = LongT, vals = [1]\<rparr>"

definition label_5 :: tensor where
  "label_5 = \<lparr>shape = [1], dtype = LongT, vals = [5]\<rparr>"

text \<open>
  A network with dropout small enough to follow by hand: one unit per hidden layer, two
  classes, the dropout probability of the notebook.
\<close>

definition example_dropout_net :: NetworkDropOut where
  "example_dropout_net =
     \<lparr>fc1_weight = \<lparr>shape = [1, 1], dtype = FloatT, vals = [1]\<rparr>,
      fc1_bias = \<lparr>shape = [1], dtype = FloatT, vals = [0]\<rparr>,
      fc2_weight = \<lparr>shape = [1, 1], dtype = FloatT, vals = [1]\<rparr>,
      fc2_bias = \<lparr>shape = [1], dtype = FloatT, vals = [0]\<rparr>,
      fc3_weight = \<lparr>shape = [1, 1], dtype = FloatT, vals = [1]\<rparr>,
      fc3_bias = \<lparr>shape = [1], dtype = FloatT, vals = [0]\<rparr>,
      fc4_weight = \<lparr>shape = [2, 1], dtype = FloatT, vals = [1, 0]\<rparr>,
      fc4_bias = \<lparr>shape = [2], dtype = FloatT, vals = [0, 0]\<rparr>,
      dropout_p = 3 / 10\<rparr>"

definition example_input :: tensor where
  "example_input = \<lparr>shape = [1, 1], dtype = FloatT, vals = [1]\<rparr>"

section \<open>Properties of the tensor operations\<close>


lemma top1_index_less: "top1 xs = Some (v, j) \<Longrightarrow> j < length xs"
  by (induction xs arbitrary: v j) (auto split: option.splits if_splits)

lemma top1_None_iff: "top1 xs = None \<longleftrightarrow> xs = []"
  by (cases xs) (auto split: option.splits)




















section \<open>Dropout\<close>

lemma uniform_less_1: "uniform k < 1"
  by (simp add: uniform_def)

lemma dropout_eval: "dropout p False g x = (x, g)"
  by (simp add: dropout_def)

lemma dropout_p0: "fst (dropout 0 True g x) = x"
proof -
  have "map2 (\<lambda>k v. if k then v / (1 - 0) else 0) (map (\<lambda>i. True) [0..<length xs]) xs = xs" for xs :: "real list"
    by (intro nth_equalityI) simp_all
  then show ?thesis
    by (simp add: dropout_def Let_def uniform_less_1)
qed

lemma forward_eval_mode:
  "NetworkDropOut_forward m False g x = map_sum id (\<lambda>y. (y, g)) (Network_no_dropout_forward m x)"
  by (simp add: NetworkDropOut_forward_def Network_no_dropout_forward_def dropout_eval bindE_def
      split: sum.splits)

lemma forward_train_p0:
  assumes "dropout_p m = 0"
  shows "map_sum id fst (NetworkDropOut_forward m True g x) = Network_no_dropout_forward m x"
  using assms
  by (simp add: NetworkDropOut_forward_def Network_no_dropout_forward_def bindE_def
      prod.case_eq_if dropout_p0 split: sum.splits)

lemmas dropout_net_eval = NetworkDropOut_forward_def example_dropout_net_def example_input_def
  linear_def relu_def dropout_def uniform_def log_softmax_def lanes_def lane_index_def dot_def
  bindE_def Let_def upt_conv_Cons

lemma example_all_kept: "NetworkDropOut_forward example_dropout_net True (\<lambda>i. 0) example_input =
   Inr (\<lparr>shape = [1, 2], dtype = FloatT,
          vals = [1000 / 343 - ln (exp (1000 / 343) + 1), - ln (exp (1000 / 343) + 1)]\<rparr>, \<lambda>i. 0)"
  by (simp add: dropout_net_eval)

lemma example_all_dropped: "NetworkDropOut_forward example_dropout_net True (\<lambda>i. 16777215) example_input =
   Inr (\<lparr>shape = [1, 2], dtype = FloatT, vals = [- ln 2, - ln 2]\<rparr>, \<lambda>i. 16777215)"
  by (simp add: dropout_net_eval)

lemma example_masks_differ: "map_sum id fst (NetworkDropOut_forward example_dropout_net True (\<lambda>i. 0) example_input)
   \<noteq> map_sum id fst (NetworkDropOut_forward example_dropout_net True (\<lambda>i. 16777215) example_input)"
proof -
  have "\<not> ((1000::real) / 343 - ln (exp (1000 / 343) + 1) = - ln 2
            \<and> - ln (exp ((1000::real) / 343) + 1) = - ln 2)"
    by linarith
  then show ?thesis by (simp add: example_all_kept example_all_dropped)
qed

section \<open>Running the cells\<close>


lemma bindE_Inl: "bindE m f = Inl e \<longleftrightarrow> m = Inl e \<or> (\<exists>a. m = Inr a \<and> f a = Inl e)"
  by (cases m) (auto simp: bindE_def)

lemma bindS_Inr: "bindS m f = (Inr b, s') \<longleftrightarrow> (\<exists>a s1. m = (Inr a, s1) \<and> f a s1 = (Inr b, s'))"
  by (cases m; cases "fst m") (auto simp: bindS_def)

lemma bindS_Inl:
  "bindS m f = (Inl e, s') \<longleftrightarrow> m = (Inl e, s') \<or> (\<exists>a s1. m = (Inr a, s1) \<and> f a s1 = (Inl e, s'))"
  by (cases m; cases "fst m") (auto simp: bindS_def)

lemma model_call_Inr:
  assumes "model_call n x s = (Inr y, s')"
  shows "\<exists>g'. net_forward n (training s) (generator s) (map p_data (params s)) x = Inr (out_value y, g')
           \<and> grad_fn y = (if grad_enabled s
                           then Some (net_vjp n (training s) (generator s) (map p_data (params s)) x)
                           else None)
           \<and> s' = s\<lparr>calls := calls s @ [Forward (training s)], generator := g'\<rparr>"
  using assms by (auto simp: model_call_def Let_def split: sum.splits prod.splits)

lemma model_call_Inl:
  assumes "model_call n x s = (Inl e, s')"
  shows "net_forward n (training s) (generator s) (map p_data (params s)) x = Inl e
           \<and> s' = s\<lparr>calls := calls s @ [Forward (training s)]\<rparr>"
  using assms by (auto simp: model_call_def Let_def split: sum.splits prod.splits)

lemma criterion_Inr:
  assumes "criterion y labels s = (Inr l, s')"
  shows "nll_loss (out_value y) labels = Inr (loss_tensor l)
           \<and> loss_grads l = map_option (\<lambda>f. f (nll_loss_grad (out_value y) labels)) (grad_fn y)
           \<and> s' = s\<lparr>calls := calls s @ [Criterion]\<rparr>"
  using assms by (auto simp: criterion_def Let_def split: sum.splits)

lemma criterion_Inl:
  assumes "criterion y labels s = (Inl e, s')"
  shows "nll_loss (out_value y) labels = Inl e \<and> s' = s\<lparr>calls := calls s @ [Criterion]\<rparr>"
  using assms by (auto simp: criterion_def Let_def split: sum.splits)

lemma backward_Inr:
  assumes "backward l s = (Inr u, s')"
  shows "\<exists>gs ps'. loss_grads l = Some gs \<and> accumulate_all (params s) gs = Inr ps'
           \<and> s' = s\<lparr>calls := calls s @ [Backward], params := ps'\<rparr>"
  using assms by (auto simp: backward_def Let_def split: sum.splits option.splits)

lemma backward_Inl:
  assumes "backward l s = (Inl e, s')"
  shows "s' = s\<lparr>calls := calls s @ [Backward]\<rparr>"
  using assms by (auto simp: backward_def Let_def split: sum.splits option.splits)


lemma accumulate_all_eq:
  "accumulate_all ps gs =
     (if list_all2 (\<lambda>p g. shape g = shape (p_data p)) ps gs then Inr (map2 deposit ps gs)
      else Inl ShapeError)"
  by (induction ps gs rule: accumulate_all.induct) (auto simp: accumulate_grad_def bindE_def)

lemma p_data_deposit [simp]: "p_data (deposit p g) = p_data p"
  by (simp add: deposit_def)

lemma map_p_data_deposit:
  "length ps = length gs \<Longrightarrow> map p_data (map2 deposit ps gs) = map p_data ps"
  by (induction ps gs rule: list_induct2) simp_all

lemma zip_take_right: "length xs \<le> k \<Longrightarrow> zip xs (take k ys) = zip xs ys"
proof -
  assume a: "length xs \<le> k"
  have "zip xs (take k ys) = zip (take k xs) (take k ys)" using a by simp
  also have "\<dots> = take k (zip xs ys)" by (simp add: take_zip)
  also have "\<dots> = zip xs ys" using a by simp
  finally show ?thesis .
qed

lemma add_zeros: "list_all (\<lambda>v. v = 0) zs \<Longrightarrow> map2 (+) zs ys = take (length zs) (ys :: real list)"
proof (induction zs arbitrary: ys)
  case Nil
  then show ?case by simp
next
  case (Cons z zs)
  then show ?case by (cases ys) simp_all
qed

lemma tensor_add_cleared:
  assumes "case c of None \<Rightarrow> True | Some z \<Rightarrow> list_all (\<lambda>v. v = 0) (vals z)"
  shows "tensor_add (case c of None \<Rightarrow> g1 | Some z \<Rightarrow> tensor_add z g1)
                    (case c of None \<Rightarrow> g2 | Some z \<Rightarrow> tensor_add z g2)
       = tensor_add (case c of None \<Rightarrow> g1 | Some z \<Rightarrow> tensor_add z g1) g2"
proof (cases c)
  case None
  then show ?thesis by simp
next
  case (Some z)
  with assms have z: "list_all (\<lambda>v. v = 0) (vals z)" by simp
  have "zip (map2 (+) (vals z) (vals g1)) (take (length (vals z)) (vals g2))
      = zip (map2 (+) (vals z) (vals g1)) (vals g2)"
    by (intro zip_take_right) simp
  then show ?thesis
    using Some by (simp add: tensor_add_def add_zeros [OF z])
qed

lemma deposit_twice:
  assumes "case p_grad p of None \<Rightarrow> True | Some z \<Rightarrow> list_all (\<lambda>v. v = 0) (vals z)"
  shows "\<exists>g1' g2'. p_grad (deposit p g1) = Some g1' \<and> p_grad (deposit p g2) = Some g2'
           \<and> p_grad (deposit (deposit p g1) g2) = Some (tensor_add g1' g2')"
  using tensor_add_cleared [OF assms, of g1 g2] by (simp add: deposit_def)

text \<open>Buffers are cleared after \<open>optimizer.zero_grad()\<close>, and in a fresh model.\<close>

lemma zero_grad_cleared: "cleared (zero_grad s)"
proof -
  have "case map_option zeros_like c of None \<Rightarrow> True | Some z \<Rightarrow> list_all (\<lambda>v. v = 0) (vals z)"
    for c :: "tensor option"
    by (cases c) (simp_all add: zeros_like_def list_all_iff)
  then show ?thesis
    by (simp add: cleared_def zero_grad_def list_all_iff)
qed

lemma fresh_notebook_cleared: "cleared (fresh_notebook ws g st)"
  by (simp add: cleared_def fresh_notebook_def new_model_def list_all_iff)

lemma forward_backward_Inr:
  assumes "forward_backward n x labels s = (Inr l, s')"
  shows "\<exists>y g' gs.
           net_forward n (training s) (generator s) (map p_data (params s)) x = Inr (y, g')
         \<and> nll_loss y labels = Inr (loss_tensor l)
         \<and> grad_enabled s
         \<and> gs = net_vjp n (training s) (generator s) (map p_data (params s)) x (nll_loss_grad y labels)
         \<and> list_all2 (\<lambda>p g. shape g = shape (p_data p)) (params s) gs
         \<and> s' = s\<lparr>calls := calls s @ [Forward (training s), Criterion, Backward],
                   generator := g', params := map2 deposit (params s) gs\<rparr>"
proof -
  from assms obtain y sa sb u where
    mc: "model_call n x s = (Inr y, sa)" and
    cr: "criterion y labels sa = (Inr l, sb)" and
    bw: "backward l sb = (Inr u, s')"
    by (auto simp: forward_backward_def bindS_Inr)
  from model_call_Inr [OF mc] obtain g' where
    fw: "net_forward n (training s) (generator s) (map p_data (params s)) x = Inr (out_value y, g')" and
    gf: "grad_fn y = (if grad_enabled s
                      then Some (net_vjp n (training s) (generator s) (map p_data (params s)) x)
                      else None)" and
    sa: "sa = s\<lparr>calls := calls s @ [Forward (training s)], generator := g'\<rparr>"
    by auto
  from criterion_Inr [OF cr] have
    nl: "nll_loss (out_value y) labels = Inr (loss_tensor l)" and
    lg: "loss_grads l = map_option (\<lambda>f. f (nll_loss_grad (out_value y) labels)) (grad_fn y)" and
    sb: "sb = sa\<lparr>calls := calls sa @ [Criterion]\<rparr>"
    by simp_all
  from backward_Inr [OF bw] obtain gs ps where
    gs: "loss_grads l = Some gs" and acc: "accumulate_all (params sb) gs = Inr ps" and
    s': "s' = sb\<lparr>calls := calls sb @ [Backward], params := ps\<rparr>"
    by auto
  from gs lg gf have ge: "grad_enabled s" and
    gs_eq: "gs = net_vjp n (training s) (generator s) (map p_data (params s)) x (nll_loss_grad (out_value y) labels)"
    by (auto split: if_splits)
  from acc have sh: "list_all2 (\<lambda>p g. shape g = shape (p_data p)) (params s) gs"
    and ps: "ps = map2 deposit (params s) gs"
    by (auto simp: accumulate_all_eq sb sa split: if_splits)
  show ?thesis
    using fw nl ge gs_eq sh by (intro exI [of _ "out_value y"] exI [of _ g'] exI [of _ gs]) (simp add: s' sb sa ps)
qed

lemma forward_backward_Inr_iff:
  assumes "net_forward n (training s) (generator s) (map p_data (params s)) x = Inr (y, g')"
    and "nll_loss y labels = Inr lt" and "grad_enabled s"
    and "gs = net_vjp n (training s) (generator s) (map p_data (params s)) x (nll_loss_grad y labels)"
    and "list_all2 (\<lambda>p g. shape g = shape (p_data p)) (params s) gs"
  shows "forward_backward n x labels s =
           (Inr \<lparr>loss_tensor = lt, loss_grads = Some gs\<rparr>,
            s\<lparr>calls := calls s @ [Forward (training s), Criterion, Backward],
              generator := g', params := map2 deposit (params s) gs\<rparr>)"
  using assms
  by (simp add: forward_backward_def model_call_def criterion_def backward_def bindS_def Let_def
      accumulate_all_eq)


lemma cell_11_Inr:
  assumes "cell_11 n images labels s = (Inr l, s')"
  shows "params s' = params s \<and> training s' = training s \<and> grad_enabled s' = grad_enabled s"
proof -
  from assms obtain x y sa where
    mc: "model_call n x s = (Inr y, sa)" and cr: "criterion y labels sa = (Inr l, s')"
    by (auto simp: cell_11_def bindS_Inr)
  from model_call_Inr [OF mc] criterion_Inr [OF cr] show ?thesis by auto
qed

lemma cell_12_Inr:
  assumes "cell_12 l s = (Inr (b, a), s')"
  shows "\<exists>w rest w' rest'. params s = w # rest \<and> backward l s = (Inr (), s')
           \<and> params s' = w' # rest' \<and> b = p_grad w \<and> a = p_grad w'"
proof (cases "params s")
  case Nil
  with assms show ?thesis by (simp add: cell_12_def)
next
  case (Cons w rest)
  with assms obtain u s1 where
    bw: "backward l s = (Inr u, s1)" and
    r: "(case params s1 of [] \<Rightarrow> (Inl DimError, s1) | w' # _ \<Rightarrow> (Inr (p_grad w, p_grad w'), s1))
          = (Inr (b, a), s')"
    by (auto simp: cell_12_def bindS_Inr)
  from r show ?thesis
    using bw Cons by (cases "params s1") auto
qed


section \<open>The validation loops\<close>

lemma for_each_append:
  "for_each body (bs @ cs) a s = bindS (for_each body bs a s) (\<lambda>a' s'. for_each body cs a' s')"
proof (induction bs arbitrary: a s)
  case Nil
  then show ?case by (simp add: bindS_def)
next
  case (Cons b bs)
  show ?case
    by (cases "body b a s"; cases "fst (body b a s)") (auto simp: bindS_def Cons.IH)
qed

lemma for_each_invariant:
  assumes step: "\<And>b a s r s'. body b a s = (r, s') \<Longrightarrow> R s s'"
    and refl: "\<And>s. R s s"
    and trans: "\<And>s s' s''. R s s' \<Longrightarrow> R s' s'' \<Longrightarrow> R s s''"
    and run: "for_each body bs a s = (r, s')"
  shows "R s s'"
  using run
proof (induction bs arbitrary: a s)
  case Nil
  then show ?case by (simp add: refl)
next
  case (Cons b bs)
  obtain r1 s1 where b1: "body b a s = (r1, s1)" by (cases "body b a s")
  show ?case
  proof (cases r1)
    case (Inl e)
    with Cons.prems b1 have "s' = s1" by (simp add: bindS_def)
    with step [OF b1] show ?thesis by simp
  next
    case (Inr a1)
    with Cons.prems b1 have "for_each body bs a1 s1 = (r, s')" by (simp add: bindS_def)
    from trans [OF step [OF b1] Cons.IH [OF this]] show ?thesis .
  qed
qed

text \<open>The relation the validation loops keep: a pure read that leaves the mode alone.\<close>

lemma pure_read_iff:
  "pure_read A s s' \<longleftrightarrow>
     params s' = params s \<and> opt_state s' = opt_state s \<and> grad_enabled s' = grad_enabled s
     \<and> (\<exists>cs. calls s' = calls s @ cs \<and> set cs \<subseteq> A)"
proof -
  have "(take (length xs) ys = xs \<and> set (drop (length xs) ys) \<subseteq> A)
          \<longleftrightarrow> (\<exists>cs. ys = xs @ cs \<and> set cs \<subseteq> A)" for xs ys :: "call list"
  proof
    assume a: "take (length xs) ys = xs \<and> set (drop (length xs) ys) \<subseteq> A"
    have "ys = take (length xs) ys @ drop (length xs) ys" by simp
    with a have "ys = xs @ drop (length xs) ys" by simp
    with a show "\<exists>cs. ys = xs @ cs \<and> set cs \<subseteq> A" by blast
  next
    assume "\<exists>cs. ys = xs @ cs \<and> set cs \<subseteq> A"
    then show "take (length xs) ys = xs \<and> set (drop (length xs) ys) \<subseteq> A" by auto
  qed
  then show ?thesis by (simp add: pure_read_def)
qed

lemma pure_read_refl: "pure_read A s s"
  by (simp add: pure_read_iff)

lemma pure_read_trans: "pure_read A s s' \<Longrightarrow> pure_read A s' s'' \<Longrightarrow> pure_read A s s''"
  by (auto simp: pure_read_iff)

lemma pure_read_mono: "pure_read A s s' \<Longrightarrow> A \<subseteq> B \<Longrightarrow> pure_read B s s'"
  by (auto simp: pure_read_iff)

lemma model_call_read:
  assumes "model_call n x s = (r, s')"
  shows "pure_read {Forward (training s)} s s' \<and> training s' = training s"
  using assms
  by (auto simp: model_call_def Let_def pure_read_iff split: sum.splits prod.splits)

lemma criterion_read:
  assumes "criterion y labels s = (r, s')"
  shows "pure_read {Criterion} s s' \<and> training s' = training s"
  using assms by (auto simp: criterion_def Let_def pure_read_iff split: sum.splits)

lemma first_val_batch_read:
  assumes "first_val_batch n b a s = (r, s')"
  shows "pure_read {Forward (training s)} s s' \<and> training s' = training s"
proof -
  obtain x y where b: "b = (x, y)" by (cases b)
  obtain r1 s1 where mc: "model_call n x s = (r1, s1)" by (cases "model_call n x s")
  have "s' = s1"
    using assms b mc by (cases r1) (auto simp: first_val_batch_def bindS_def split: sum.splits)
  with model_call_read [OF mc] show ?thesis by simp
qed

lemma dropout_val_batch_read:
  assumes "dropout_val_batch n b a s = (r, s')"
  shows "pure_read {Forward (training s), Criterion} s s' \<and> training s' = training s"
proof -
  obtain x y where b: "b = (x, y)" by (cases b)
  obtain ac tl where a: "a = (ac, tl)" by (cases a)
  show ?thesis
  proof (cases "view_flat x")
    case (Inl e)
    with assms b a show ?thesis by (simp add: dropout_val_batch_def bindS_def pure_read_refl)
  next
    case (Inr x')
    obtain r1 s1 where mc: "model_call n x' s = (r1, s1)" by (cases "model_call n x' s")
    note m = model_call_read [OF mc]
    show ?thesis
    proof (cases r1)
      case (Inl e)
      with assms b a Inr mc have "s' = s1" by (simp add: dropout_val_batch_def bindS_def)
      with m show ?thesis by (auto intro: pure_read_mono)
    next
      case y': (Inr y')
      show ?thesis
      proof (cases "batch_accuracy (out_value y') y")
        case (Inl e)
        with assms b a Inr mc y' have "s' = s1" by (simp add: dropout_val_batch_def bindS_def)
        with m show ?thesis by (auto intro: pure_read_mono)
      next
        case acc: (Inr acc)
        obtain r2 s2 where cr: "criterion y' y s1 = (r2, s2)" by (cases "criterion y' y s1")
        have "s' = s2"
          using assms b a Inr mc y' acc cr
          by (cases r2) (simp_all add: dropout_val_batch_def bindS_def)
        moreover have "pure_read {Forward (training s), Criterion} s s2"
          using m criterion_read [OF cr]
          by (auto intro: pure_read_trans pure_read_mono)
        moreover have "training s2 = training s"
          using m criterion_read [OF cr] by simp
        ultimately show ?thesis by simp
      qed
    qed
  qed
qed

lemma first_val_loop_read:
  assumes "for_each (first_val_batch n) bs a s = (r, s')"
  shows "pure_read {Forward (training s)} s s' \<and> training s' = training s"
proof (rule for_each_invariant [where R = "\<lambda>s s'. pure_read {Forward (training s)} s s' \<and> training s' = training s", OF _ _ _ assms])
  show "pure_read {Forward (training s)} s s' \<and> training s' = training s"
    if "first_val_batch n b a s = (r, s')" for b a s r s'
    using first_val_batch_read [OF that] .
  show "pure_read {Forward (training s)} s s \<and> training s = training s" for s :: "'a notebook"
    by (simp add: pure_read_refl)
  show "pure_read {Forward (training s)} s s'' \<and> training s'' = training s"
    if "pure_read {Forward (training s)} s s' \<and> training s' = training s"
      and "pure_read {Forward (training s')} s' s'' \<and> training s'' = training s'"
    for s s' s'' :: "'a notebook"
    using that by (auto intro: pure_read_trans)
qed

lemma dropout_val_loop_read:
  assumes "for_each (dropout_val_batch n) bs a s = (r, s')"
  shows "pure_read {Forward (training s), Criterion} s s' \<and> training s' = training s"
proof (rule for_each_invariant [where R = "\<lambda>s s'. pure_read {Forward (training s), Criterion} s s' \<and> training s' = training s", OF _ _ _ assms])
  show "pure_read {Forward (training s), Criterion} s s' \<and> training s' = training s"
    if "dropout_val_batch n b a s = (r, s')" for b a s r s'
    using dropout_val_batch_read [OF that] .
  show "pure_read {Forward (training s), Criterion} s s \<and> training s = training s" for s :: "'a notebook"
    by (simp add: pure_read_refl)
  show "pure_read {Forward (training s), Criterion} s s'' \<and> training s'' = training s"
    if "pure_read {Forward (training s), Criterion} s s' \<and> training s' = training s"
      and "pure_read {Forward (training s'), Criterion} s' s'' \<and> training s'' = training s'"
    for s s' s'' :: "'a notebook"
    using that by (auto intro: pure_read_trans)
qed

lemma dropout_val_batch_Inr:
  assumes "dropout_val_batch n b a s = (Inr a', s')"
  shows "calls s' = calls s @ [Forward (training s), Criterion] \<and> training s' = training s"
proof -
  obtain x y where b: "b = (x, y)" by (cases b)
  obtain ac tl where a: "a = (ac, tl)" by (cases a)
  from assms b a obtain x' y' s1 acc l where
    mc: "model_call n x' s = (Inr y', s1)" and cr: "criterion y' y s1 = (Inr l, s')"
    by (auto simp: dropout_val_batch_def bindS_Inr)
  from model_call_Inr [OF mc] criterion_Inr [OF cr] show ?thesis by auto
qed

lemma dropout_val_loop_trace:
  assumes "for_each (dropout_val_batch n) bs a s = (Inr a', s')"
  shows "calls s' = calls s @ concat (replicate (length bs) [Forward (training s), Criterion])"
  using assms
proof (induction bs arbitrary: a s)
  case Nil
  then show ?case by simp
next
  case (Cons b bs)
  from Cons.prems obtain a1 s1 where
    b1: "dropout_val_batch n b a s = (Inr a1, s1)" and
    rest: "for_each (dropout_val_batch n) bs a1 s1 = (Inr a', s')"
    by (auto simp: bindS_Inr)
  from dropout_val_batch_Inr [OF b1] Cons.IH [OF rest] show ?case by simp
qed

lemma with_no_grad_eq:
  assumes "body (s\<lparr>grad_enabled := False\<rparr>) = (r, s1)"
  shows "with_no_grad body s = (r, s1\<lparr>grad_enabled := grad_enabled s\<rparr>)"
  using assms by (simp add: with_no_grad_def)

lemma dropout_validation_cases:
  assumes loop: "for_each (dropout_val_batch n) testloader (None, None)
                   (model_eval (s\<lparr>grad_enabled := False\<rparr>)) = (r, s1)"
  shows "dropout_validation n testloader s =
           (case r of
              Inl e \<Rightarrow> (Inl e, s1\<lparr>grad_enabled := grad_enabled s\<rparr>)
            | Inr acc \<Rightarrow> (Inr acc, model_train (s1\<lparr>grad_enabled := grad_enabled s\<rparr>)))"
  using with_no_grad_eq [of "\<lambda>s. for_each (dropout_val_batch n) testloader (None, None) (model_eval s)", OF loop]
  by (cases r) (simp_all add: dropout_validation_def bindS_def)


lemma first_validation_read:
  "pure_read {Forward (training s)} s (snd (first_validation n testloader accuracy s))"
proof -
  let ?s0 = "s\<lparr>grad_enabled := False\<rparr>"
  obtain r1 s1 where loop: "for_each (first_val_batch n) testloader accuracy ?s0 = (r1, s1)"
    by (cases "for_each (first_val_batch n) testloader accuracy ?s0")
  from first_val_loop_read [OF loop] have
    rd: "pure_read {Forward (training s)} s (s1\<lparr>grad_enabled := grad_enabled s\<rparr>)"
    by (simp add: pure_read_iff)
  have wg: "with_no_grad (for_each (first_val_batch n) testloader accuracy) s
              = (r1, s1\<lparr>grad_enabled := grad_enabled s\<rparr>)"
    using with_no_grad_eq [of "for_each (first_val_batch n) testloader accuracy", OF loop] .
  have "snd (first_validation n testloader accuracy s) = s1\<lparr>grad_enabled := grad_enabled s\<rparr>"
    by (cases r1) (auto simp: first_validation_def wg bindS_def split: option.splits sum.splits)
  with rd show ?thesis by simp
qed

lemma dropout_validation_read:
  "pure_read {ModelEval, Forward False, Criterion, ModelTrain} s (snd (dropout_validation n testloader s))"
proof -
  let ?s0 = "model_eval (s\<lparr>grad_enabled := False\<rparr>)"
  obtain r1 s1 where loop: "for_each (dropout_val_batch n) testloader (None, None) ?s0 = (r1, s1)"
    by (cases "for_each (dropout_val_batch n) testloader (None, None) ?s0")
  have s0: "training ?s0 = False" "calls ?s0 = calls s @ [ModelEval]" "params ?s0 = params s"
    "opt_state ?s0 = opt_state s"
    by (simp_all add: model_eval_def)
  from dropout_val_loop_read [OF loop] obtain cs where
    cs: "calls s1 = calls ?s0 @ cs" "set cs \<subseteq> {Forward False, Criterion}" and
    fr: "params s1 = params s" "opt_state s1 = opt_state s"
    by (auto simp: pure_read_iff s0)
  show ?thesis
    using dropout_validation_cases [OF loop] cs fr s0
    by (cases r1) (auto simp: pure_read_iff model_train_def)
qed

lemma dropout_validation_trace:
  assumes "dropout_validation n testloader s = (Inr acc, s')"
  shows "calls s' = calls s @ ModelEval # concat (replicate (length testloader) [Forward False, Criterion])
                      @ [ModelTrain]"
proof -
  let ?s0 = "model_eval (s\<lparr>grad_enabled := False\<rparr>)"
  obtain r1 s1 where loop: "for_each (dropout_val_batch n) testloader (None, None) ?s0 = (r1, s1)"
    by (cases "for_each (dropout_val_batch n) testloader (None, None) ?s0")
  have s0: "training ?s0 = False" "calls ?s0 = calls s @ [ModelEval]"
    by (simp_all add: model_eval_def)
  from dropout_validation_cases [OF loop] assms obtain a1 where
    r1: "r1 = Inr a1" and s': "s' = model_train (s1\<lparr>grad_enabled := grad_enabled s\<rparr>)"
    by (cases r1) auto
  from dropout_val_loop_trace [OF loop [unfolded r1]] show ?thesis
    by (simp add: s' model_train_def s0)
qed


text \<open>
  The first validation loop forgets every batch but the last: its result is that of the
  last batch alone, run in the state the earlier batches left.
\<close>

lemma first_val_batch_forgets: "first_val_batch n b a s = first_val_batch n b a' s"
  by (simp add: first_val_batch_def)

lemma first_val_loop_last:
  assumes "for_each (first_val_batch n) bs a s = (Inr a1, s1)"
  shows "for_each (first_val_batch n) (bs @ [b]) a s = first_val_batch n b None s1"
proof -
  have "for_each (first_val_batch n) (bs @ [b]) a s = for_each (first_val_batch n) [b] a1 s1"
    using assms by (simp add: for_each_append bindS_def)
  also have "\<dots> = first_val_batch n b a1 s1"
    by (cases "first_val_batch n b a1 s1"; cases "fst (first_val_batch n b a1 s1)")
       (auto simp: bindS_def)
  finally show ?thesis using first_val_batch_forgets [of n b a1 s1 None] by simp
qed

section \<open>Errors\<close>















section \<open>The training step and the gradient buffers\<close>

lemmas example_defs = example_net_def example_bias_def example_notebook_def images_a_def
  images_b_def label_0_def label_1_def label_5_def fresh_notebook_def new_model_def

lemmas training_defs = train_batch_flat_def train_batch_def training_pass_def forward_backward_def
  cell_11_def cell_12_def cell_14_def bindS_def bindE_def view_flat_def zero_grad_def model_call_def
  criterion_def backward_def step_def SGD_def sgd_update_def nll_loss_def nll_loss_grad_def
  accumulate_grad_def deposit_def tensor_add_def item_def lanes_def lane_index_def Let_def
  upt_conv_Cons zeros_like_def

lemmas validation_defs = first_validation_def first_val_batch_def dropout_validation_def
  dropout_val_batch_def with_no_grad_def model_eval_def model_train_def batch_accuracy_def
  top_class_of_def topk_last_def topk_def equals_of_def view_def torch_eq_def broadcast_shapes_def
  pad_shape_def accuracy_of_def torch_mean_def type_FloatTensor_def py_add_def

text \<open>
  The training pass with any optimizer: what a completed pass has called and left.
\<close>

lemma training_pass_Inr:
  assumes tp: "training_pass n opt x labels s = (Inr l, s')"
  shows "\<exists>y g' ps.
           net_forward n (training s) (generator s) (map p_data (params s)) x = Inr (y, g')
         \<and> nll_loss y labels = Inr (loss_tensor l)
         \<and> accumulate_all (params (zero_grad s))
              (net_vjp n (training s) (generator s) (map p_data (params s)) x (nll_loss_grad y labels))
             = Inr ps
         \<and> params s' = snd (opt (opt_state s) ps)
         \<and> opt_state s' = fst (opt (opt_state s) ps)
         \<and> calls s' = calls s @ [ZeroGrad, Forward (training s), Criterion, Backward, OptStep]
         \<and> training s' = training s \<and> grad_enabled s' = grad_enabled s \<and> generator s' = g'"
proof -
  from tp obtain y sa sb sc where
    mc: "model_call n x (zero_grad s) = (Inr y, sa)" and
    cr: "criterion y labels sa = (Inr l, sb)" and
    bw: "backward l sb = (Inr (), sc)" and s': "s' = step opt sc"
    by (auto simp: training_pass_def bindS_Inr)
  have zg: "training (zero_grad s) = training s" "generator (zero_grad s) = generator s"
    "map p_data (params (zero_grad s)) = map p_data (params s)"
    "grad_enabled (zero_grad s) = grad_enabled s" "calls (zero_grad s) = calls s @ [ZeroGrad]"
    "opt_state (zero_grad s) = opt_state s"
    by (simp_all add: zero_grad_def comp_def)
  from model_call_Inr [OF mc] obtain g' where
    fw: "net_forward n (training s) (generator s) (map p_data (params s)) x = Inr (out_value y, g')" and
    gf: "grad_fn y = (if grad_enabled s
                      then Some (net_vjp n (training s) (generator s) (map p_data (params s)) x)
                      else None)" and
    sa: "sa = (zero_grad s)\<lparr>calls := calls (zero_grad s) @ [Forward (training s)], generator := g'\<rparr>"
    by (auto simp: zg)
  from criterion_Inr [OF cr] have
    nl: "nll_loss (out_value y) labels = Inr (loss_tensor l)" and
    lg: "loss_grads l = map_option (\<lambda>f. f (nll_loss_grad (out_value y) labels)) (grad_fn y)" and
    sb: "sb = sa\<lparr>calls := calls sa @ [Criterion]\<rparr>"
    by simp_all
  from backward_Inr [OF bw] obtain gs ps where
    gs: "loss_grads l = Some gs" and acc: "accumulate_all (params sb) gs = Inr ps" and
    sc: "sc = sb\<lparr>calls := calls sb @ [Backward], params := ps\<rparr>"
    by auto
  from gs lg gf have
    gs_eq: "gs = net_vjp n (training s) (generator s) (map p_data (params s)) x
                   (nll_loss_grad (out_value y) labels)"
    by (auto split: if_splits)
  have psb: "params sb = params (zero_grad s)" by (simp add: sb sa)
  have fin: "params s' = snd (opt (opt_state s) ps)" "opt_state s' = fst (opt (opt_state s) ps)"
    "calls s' = calls s @ [ZeroGrad, Forward (training s), Criterion, Backward, OptStep]"
    "training s' = training s" "grad_enabled s' = grad_enabled s" "generator s' = g'"
    by (simp_all add: s' step_def sc sb sa zg split: prod.splits)
  show ?thesis
    using fw nl acc fin unfolding psb gs_eq
    by (intro exI [of _ "out_value y"] exI [of _ g'] exI [of _ ps]) simp
qed


text \<open>
  The loop of the first model of Part 5 runs the same pass on the images as they come,
  with the optimizer it is given.
\<close>

lemma train_batch_Inr:
  assumes "train_batch n opt (images, labels) running_loss s = (Inr r, s')"
  shows "\<exists>l v. training_pass n opt images labels s = (Inr l, s') \<and> item (loss_tensor l) = Inr v
           \<and> r = running_loss + v
           \<and> calls s' = calls s @ [ZeroGrad, Forward (training s), Criterion, Backward, OptStep]"
proof -
  from assms obtain l v where
    tp: "training_pass n opt images labels s = (Inr l, s')" and
    v: "item (loss_tensor l) = Inr v" "r = running_loss + v"
    by (auto simp: train_batch_def bindS_Inr)
  from training_pass_Inr [OF tp] tp v show ?thesis by blast
qed



text \<open>
  C2. Gradient accumulation. Start from cleared buffers (as \<open>zero_grad\<close> or a fresh
  model leaves them) and run two forward-backward passes with no \<open>zero_grad\<close> in between. Then the second pass succeeds whenever it
  succeeds alone, and afterwards the buffer of every parameter is the elementwise sum of
  the buffer the first pass alone leaves and the buffer the second pass alone leaves
  (each from the cleared buffers; the second one drawing from the generator as the first
  left it).
\<close>

theorem gradient_accumulation_law:
  assumes c: "cleared s0"
    and p1: "forward_backward n x1 y1 s0 = (Inr l1, s1)"
    and p2: "forward_backward n x2 y2 (s0\<lparr>generator := generator s1\<rparr>) = (Inr l2, s2)"
  shows "\<exists>l s12. forward_backward n x2 y2 s1 = (Inr l, s12)
           \<and> length (params s12) = length (params s0)
           \<and> (\<forall>i<length (params s0). \<exists>g1 g2.
                  p_grad (params s1 ! i) = Some g1 \<and> p_grad (params s2 ! i) = Some g2
                \<and> p_grad (params s12 ! i) = Some (tensor_add g1 g2))"
proof -
  from forward_backward_Inr [OF p1] obtain ya ga gsa where
    sha: "list_all2 (\<lambda>p g. shape g = shape (p_data p)) (params s0) gsa" and
    s1: "s1 = s0\<lparr>calls := calls s0 @ [Forward (training s0), Criterion, Backward],
                  generator := ga, params := map2 deposit (params s0) gsa\<rparr>"
    by blast
  from forward_backward_Inr [OF p2] obtain yb gb gsb where
    fwb: "net_forward n (training s0) (generator s1) (map p_data (params s0)) x2 = Inr (yb, gb)" and
    nlb: "nll_loss yb y2 = Inr (loss_tensor l2)" and ge: "grad_enabled s0" and
    gsb: "gsb = net_vjp n (training s0) (generator s1) (map p_data (params s0)) x2 (nll_loss_grad yb y2)" and
    shb: "list_all2 (\<lambda>p g. shape g = shape (p_data p)) (params s0) gsb" and
    s2: "s2 = s0\<lparr>generator := generator s1, calls := calls s0 @ [Forward (training s0), Criterion, Backward],
                  generator := gb, params := map2 deposit (params s0) gsb\<rparr>"
    by auto
  have la: "length gsa = length (params s0)" and lb: "length gsb = length (params s0)"
    using list_all2_lengthD [OF sha] list_all2_lengthD [OF shb] by simp_all
  have data1: "map p_data (params s1) = map p_data (params s0)"
    using map_p_data_deposit [of "params s0" gsa] la unfolding s1 by simp
  have ps1: "params s1 = map2 deposit (params s0) gsa" by (simp add: s1)
  have sh1: "list_all2 (\<lambda>p g. shape g = shape (p_data p)) (params s1) gsb"
    unfolding list_all2_conv_all_nth
  proof (intro conjI allI impI)
    show "length (params s1) = length gsb" by (simp add: ps1 la lb)
    fix i assume "i < length (params s1)"
    then have i: "i < length (params s0)" by (simp add: ps1 la)
    then have "shape (gsb ! i) = shape (p_data (params s0 ! i))"
      using shb by (simp add: list_all2_conv_all_nth)
    then show "shape (gsb ! i) = shape (p_data (params s1 ! i))"
      using i by (simp add: ps1 la)
  qed
  have lab: "length gsb = length gsa" using la lb by simp
  have run: "forward_backward n x2 y2 s1 =
           (Inr \<lparr>loss_tensor = loss_tensor l2, loss_grads = Some gsb\<rparr>,
            s1\<lparr>calls := calls s1 @ [Forward (training s1), Criterion, Backward],
              generator := gb, params := map2 deposit (params s1) gsb\<rparr>)"
  proof (rule forward_backward_Inr_iff)
    show "net_forward n (training s1) (generator s1) (map p_data (params s1)) x2 = Inr (yb, gb)"
      using fwb by (simp add: data1) (simp add: s1)
    show "nll_loss yb y2 = Inr (loss_tensor l2)" by (rule nlb)
    show "grad_enabled s1" using ge by (simp add: s1)
    show "gsb = net_vjp n (training s1) (generator s1) (map p_data (params s1)) x2 (nll_loss_grad yb y2)"
      using gsb by (simp add: data1) (simp add: s1)
    show "list_all2 (\<lambda>p g. shape g = shape (p_data p)) (params s1) gsb" by (rule sh1)
  qed
  have each: "\<exists>g1 g2. p_grad (params s1 ! i) = Some g1 \<and> p_grad (params s2 ! i) = Some g2
      \<and> p_grad (map2 deposit (params s1) gsb ! i) = Some (tensor_add g1 g2)"
    if i: "i < length (params s0)" for i
  proof -
    have "case p_grad (params s0 ! i) of None \<Rightarrow> True | Some z \<Rightarrow> list_all (\<lambda>v. v = 0) (vals z)"
      using c i by (simp add: cleared_def list_all_length)
    from deposit_twice [OF this, of "gsa ! i" "gsb ! i"] show ?thesis
      using i la lb by (simp add: s1 s2)
  qed
  show ?thesis
    using run each la lb lab by (simp add: s1)
qed

lemma example_pass_a:
  "forward_backward example_net images_a label_0 example_notebook =
   (Inr \<lparr>loss_tensor = \<lparr>shape = [], dtype = FloatT, vals = [1]\<rparr>,
         loss_grads = Some [\<lparr>shape = [2], dtype = FloatT, vals = [-1, 0]\<rparr>]\<rparr>,
    example_notebook\<lparr>params := [\<lparr>p_data = example_bias,
                                   p_grad = Some \<lparr>shape = [2], dtype = FloatT, vals = [-1, 0]\<rparr>\<rparr>],
                      calls := [Forward True, Criterion, Backward]\<rparr>)"
  by (simp add: example_defs training_defs)

lemma example_pass_b:
  "forward_backward example_net images_b label_1 example_notebook =
   (Inr \<lparr>loss_tensor = \<lparr>shape = [], dtype = FloatT, vals = [1]\<rparr>,
         loss_grads = Some [\<lparr>shape = [2], dtype = FloatT, vals = [0, -1]\<rparr>]\<rparr>,
    example_notebook\<lparr>params := [\<lparr>p_data = example_bias,
                                   p_grad = Some \<lparr>shape = [2], dtype = FloatT, vals = [0, -1]\<rparr>\<rparr>],
                      calls := [Forward True, Criterion, Backward]\<rparr>)"
  by (simp add: example_defs training_defs)

lemma example_cleared: "cleared example_notebook"
  by (simp add: cleared_def example_defs)

theorem gradient_accumulation_law_witness:
  "cleared example_notebook
   \<and> (\<exists>l s12. forward_backward example_net images_b label_1
                 (snd (forward_backward example_net images_a label_0 example_notebook)) = (Inr l, s12)
        \<and> p_grad (params s12 ! 0) = Some \<lparr>shape = [2], dtype = FloatT, vals = [-1, -1]\<rparr>)"
proof -
  let ?s1 = "example_notebook\<lparr>params := [\<lparr>p_data = example_bias,
                                   p_grad = Some \<lparr>shape = [2], dtype = FloatT, vals = [-1, 0]\<rparr>\<rparr>],
                      calls := [Forward True, Criterion, Backward]\<rparr>"
  have g: "example_notebook\<lparr>generator := generator ?s1\<rparr> = example_notebook"
    by simp
  have len: "0 < length (params example_notebook)" by (simp add: example_defs)
  from gradient_accumulation_law [OF example_cleared example_pass_a, unfolded g, OF example_pass_b]
  obtain l s12 where
    run: "forward_backward example_net images_b label_1 ?s1 = (Inr l, s12)" and
    all: "\<forall>i<length (params example_notebook). \<exists>g1 g2.
            p_grad (params ?s1 ! i) = Some g1
          \<and> p_grad (params (example_notebook\<lparr>params := [\<lparr>p_data = example_bias,
                 p_grad = Some \<lparr>shape = [2], dtype = FloatT, vals = [0, -1]\<rparr>\<rparr>],
                 calls := [Forward True, Criterion, Backward]\<rparr>) ! i) = Some g2
          \<and> p_grad (params s12 ! i) = Some (tensor_add g1 g2)"
    by blast
  from all [rule_format, OF len]
  have "p_grad (params s12 ! 0) = Some \<lparr>shape = [2], dtype = FloatT, vals = [-1, -1]\<rparr>"
    by (auto simp: tensor_add_def)
  with run example_cleared show ?thesis by (simp add: example_pass_a)
qed

text \<open>
  C6. Every gradient buffer of a freshly built model is unset, and still unset after the
  forward pass and the loss (cell 11). After the one backward pass of cell 12 every
  parameter's buffer is set and has the shape of its parameter; the cell prints \<open>None\<close>
  before and a tensor of the first parameter's shape after.
\<close>

theorem gradient_buffers_unset_then_populated:
  assumes c11: "cell_11 n images labels (fresh_notebook ws g st) = (Inr l, s1)"
    and c12: "cell_12 l s1 = (Inr (before, after), s2)"
  shows "list_all (\<lambda>p. p_grad p = None) (params (fresh_notebook ws g st))
       \<and> list_all (\<lambda>p. p_grad p = None) (params s1)
       \<and> before = None
       \<and> (\<exists>gr. after = Some gr \<and> shape gr = shape (ws ! 0))
       \<and> length (params s2) = length ws
       \<and> (\<forall>i<length ws. \<exists>gr. p_grad (params s2 ! i) = Some gr \<and> shape gr = shape (ws ! i)
                             \<and> p_data (params s2 ! i) = ws ! i)"
proof -
  have fresh: "params (fresh_notebook ws g st) = map (\<lambda>w. \<lparr>p_data = w, p_grad = None\<rparr>) ws"
    by (simp add: fresh_notebook_def new_model_def)
  have p1: "params s1 = map (\<lambda>w. \<lparr>p_data = w, p_grad = None\<rparr>) ws"
    using cell_11_Inr [OF c11] fresh by simp
  from cell_12_Inr [OF c12] obtain w rest w' rest' where
    ps1: "params s1 = w # rest" and
    bw: "backward l s1 = (Inr (), s2)" and ps2: "params s2 = w' # rest'" and
    bef: "before = p_grad w" and aft: "after = p_grad w'"
    by blast
  from ps1 p1 have ne: "0 < length ws" by (cases ws) auto
  from backward_Inr [OF bw] obtain gs ps' where
    acc: "accumulate_all (params s1) gs = Inr ps'" and s2: "params s2 = ps'"
    by auto
  from acc have sh: "list_all2 (\<lambda>p g. shape g = shape (p_data p)) (params s1) gs"
    and ps': "ps' = map2 deposit (params s1) gs"
    by (auto simp: accumulate_all_eq split: if_splits)
  have len: "length gs = length ws"
    using list_all2_lengthD [OF sh] by (simp add: p1)
  have each: "\<exists>gr. p_grad (params s2 ! i) = Some gr \<and> shape gr = shape (ws ! i)
                  \<and> p_data (params s2 ! i) = ws ! i" if i: "i < length ws" for i
  proof -
    have "shape (gs ! i) = shape (ws ! i)"
      using sh i by (simp add: list_all2_conv_all_nth p1)
    then show ?thesis
      using i len by (simp add: s2 ps' p1 deposit_def)
  qed
  have w0: "w = \<lparr>p_data = ws ! 0, p_grad = None\<rparr>"
    using ps1 p1 ne by (cases ws) auto
  have w'0: "w' = params s2 ! 0" by (simp add: ps2)
  from each [OF ne] have "\<exists>gr. after = Some gr \<and> shape gr = shape (ws ! 0)"
    by (auto simp: aft w'0)
  moreover have "before = None" by (simp add: bef w0)
  moreover have "length (params s2) = length ws" by (simp add: s2 ps' p1 len)
  ultimately show ?thesis
    using each by (simp add: fresh p1 list_all_length)
qed

lemma example_cell_11:
  "cell_11 example_net images_a label_0 (fresh_notebook [example_bias] (\<lambda>i. 0) ()) =
   (Inr \<lparr>loss_tensor = \<lparr>shape = [], dtype = FloatT, vals = [1]\<rparr>,
         loss_grads = Some [\<lparr>shape = [2], dtype = FloatT, vals = [-1, 0]\<rparr>]\<rparr>,
    (fresh_notebook [example_bias] (\<lambda>i. 0) ())\<lparr>calls := [Forward True, Criterion]\<rparr>)"
  by (simp add: example_defs training_defs)

lemma example_cell_12:
  "cell_12 \<lparr>loss_tensor = \<lparr>shape = [], dtype = FloatT, vals = [1]\<rparr>,
           loss_grads = Some [\<lparr>shape = [2], dtype = FloatT, vals = [-1, 0]\<rparr>]\<rparr>
     ((fresh_notebook [example_bias] (\<lambda>i. 0) ())\<lparr>calls := [Forward True, Criterion]\<rparr>) =
   (Inr (None, Some \<lparr>shape = [2], dtype = FloatT, vals = [-1, 0]\<rparr>),
    (fresh_notebook [example_bias] (\<lambda>i. 0) ())
      \<lparr>params := [\<lparr>p_data = example_bias,
                   p_grad = Some \<lparr>shape = [2], dtype = FloatT, vals = [-1, 0]\<rparr>\<rparr>],
       calls := [Forward True, Criterion, Backward]\<rparr>)"
  by (simp add: example_defs training_defs)

theorem gradient_buffers_unset_then_populated_witness:
  "\<exists>l s1 after s2.
     cell_11 example_net images_a label_0 (fresh_notebook [example_bias] (\<lambda>i. 0) ()) = (Inr l, s1)
   \<and> cell_12 l s1 = (Inr (None, Some after), s2)
   \<and> shape after = shape example_bias
   \<and> after = \<lparr>shape = [2], dtype = FloatT, vals = [-1, 0]\<rparr>"
proof -
  from gradient_buffers_unset_then_populated [OF example_cell_11 example_cell_12]
  have "\<exists>gr. Some \<lparr>shape = [2], dtype = FloatT, vals = [-1, 0]\<rparr> = Some gr
           \<and> shape gr = shape ([example_bias] ! 0)"
    by blast
  then have "shape \<lparr>shape = [2], dtype = FloatT, vals = [-1, 0::real]\<rparr> = shape example_bias"
    by simp
  with example_cell_11 example_cell_12 show ?thesis by blast
qed

section \<open>Validation\<close>

lemma example_first_validation_ba:
  "first_validation example_net [(images_b, label_0), (images_a, label_0)] None example_notebook =
   (Inr 100, example_notebook\<lparr>calls := [Forward True, Forward True]\<rparr>)"
  by (simp add: example_defs training_defs validation_defs)

lemma example_first_validation_ab:
  "first_validation example_net [(images_a, label_0), (images_b, label_0)] None example_notebook =
   (Inr 0, example_notebook\<lparr>calls := [Forward True, Forward True]\<rparr>)"
  by (simp add: example_defs training_defs validation_defs)

lemma example_first_validation_a:
  "first_validation example_net [(images_a, label_0)] None example_notebook =
   (Inr 100, example_notebook\<lparr>calls := [Forward True]\<rparr>)"
  by (simp add: example_defs training_defs validation_defs)

lemma example_dropout_validation:
  "dropout_validation example_net [(images_b, label_0), (images_a, label_0)] example_notebook =
   (Inr (Some \<lparr>shape = [], dtype = FloatT, vals = [1]\<rparr>, Some \<lparr>shape = [], dtype = FloatT, vals = [3]\<rparr>),
    example_notebook\<lparr>calls := [ModelEval, Forward False, Criterion, Forward False, Criterion, ModelTrain]\<rparr>)"
  by (simp add: example_defs training_defs validation_defs)

lemma example_dropout_validation_raises:
  "dropout_validation example_net [(images_b, label_5)] example_notebook =
   (Inl TargetOutOfBounds,
    example_notebook\<lparr>training := False, calls := [ModelEval, Forward False, Criterion]\<rparr>)"
  by (simp add: example_defs training_defs validation_defs)

text \<open>
  C4 (as amended). A validation pass over the model with dropout calls \<open>model.eval()\<close>
  before its first forward pass, and every forward pass of the validation runs in
  evaluation mode. When the pass completes, \<open>model.train()\<close> is its last call and the model
  is in training mode. When a framework call raises inside the pass, nothing more is
  called: the model stays in evaluation mode. The gradient-tracking switch is restored
  either way.
\<close>

theorem dropout_validation_mode:
  assumes "dropout_validation n testloader s = (r, s')"
  shows "\<exists>cs. calls s' = calls s @ [ModelEval] @ cs @ (case r of Inr _ \<Rightarrow> [ModelTrain] | Inl _ \<Rightarrow> [])
           \<and> set cs \<subseteq> {Forward False, Criterion}
           \<and> training s' = (case r of Inr _ \<Rightarrow> True | Inl _ \<Rightarrow> False)
           \<and> grad_enabled s' = grad_enabled s"
proof -
  let ?s0 = "model_eval (s\<lparr>grad_enabled := False\<rparr>)"
  obtain r1 s1 where loop: "for_each (dropout_val_batch n) testloader (None, None) ?s0 = (r1, s1)"
    by (cases "for_each (dropout_val_batch n) testloader (None, None) ?s0")
  have s0: "training ?s0 = False" "calls ?s0 = calls s @ [ModelEval]"
    by (simp_all add: model_eval_def)
  from dropout_val_loop_read [OF loop] obtain cs where
    cs: "calls s1 = calls ?s0 @ cs" "set cs \<subseteq> {Forward False, Criterion}" and
    tr: "training s1 = False"
    by (auto simp: pure_read_iff s0)
  show ?thesis
  proof (cases r1)
    case (Inl e)
    with dropout_validation_cases [OF loop] assms
    have "r = Inl e" "s' = s1\<lparr>grad_enabled := grad_enabled s\<rparr>" by simp_all
    with cs tr s0 show ?thesis by simp
  next
    case (Inr acc)
    with dropout_validation_cases [OF loop] assms
    have "r = Inr acc" "s' = model_train (s1\<lparr>grad_enabled := grad_enabled s\<rparr>)" by simp_all
    with cs tr s0 show ?thesis by (simp add: model_train_def)
  qed
qed


theorem dropout_validation_mode_witness:
  "\<exists>acc s'. dropout_validation example_net [(images_b, label_0), (images_a, label_0)] example_notebook
              = (Inr acc, s')
     \<and> training s' \<and> grad_enabled s' = grad_enabled example_notebook
     \<and> calls s' = [ModelEval, Forward False, Criterion, Forward False, Criterion, ModelTrain]"
proof -
  from dropout_validation_mode [OF example_dropout_validation]
  have "training (example_notebook\<lparr>calls := [ModelEval, Forward False, Criterion, Forward False,
                                             Criterion, ModelTrain]\<rparr>)"
    by auto
  then show ?thesis
    by (simp add: example_dropout_validation)
qed

text \<open>
  The claim as stated, "the flag is restored on every validation exit", fails: a batch
  whose label the network has no class for makes the loss raise, and the model, in
  training mode before, is left in evaluation mode.
\<close>

theorem dropout_validation_error_exit:
  "fst (dropout_validation example_net [(images_b, label_5)] example_notebook) = Inl TargetOutOfBounds
   \<and> training example_notebook
   \<and> \<not> training (snd (dropout_validation example_net [(images_b, label_5)] example_notebook))"
  by (simp add: example_dropout_validation_raises) (simp add: example_defs)

text \<open>
  C5 (as amended). Both validation passes are pure reads: however they end, every
  parameter value, every gradient buffer and the optimizer state are what they were, and
  no backward pass, optimizer step or gradient clearing is called. The first validation
  loop calls the forward pass only; the validation of the dropout model, when it
  completes, has computed output and loss once for every batch.
\<close>

theorem validation_is_a_pure_read:
  "pure_read {Forward (training s)} s (snd (first_validation n testloader accuracy s))
   \<and> pure_read {ModelEval, Forward False, Criterion, ModelTrain} s
        (snd (dropout_validation n testloader s))
   \<and> (\<forall>acc s'. dropout_validation n testloader s = (Inr acc, s') \<longrightarrow>
         calls s' = calls s @ ModelEval # concat (replicate (length testloader) [Forward False, Criterion])
                      @ [ModelTrain])"
  using first_validation_read dropout_validation_read dropout_validation_trace by blast

theorem validation_is_a_pure_read_witness:
  "params (snd (first_validation example_net [(images_b, label_0), (images_a, label_0)] None
                  example_notebook)) = params example_notebook
   \<and> params (snd (dropout_validation example_net [(images_b, label_0), (images_a, label_0)]
                    example_notebook)) = params example_notebook
   \<and> calls (snd (dropout_validation example_net [(images_b, label_0), (images_a, label_0)]
                   example_notebook))
       = [ModelEval, Forward False, Criterion, Forward False, Criterion, ModelTrain]"
proof -
  note t = validation_is_a_pure_read [of example_notebook example_net
      "[(images_b, label_0), (images_a, label_0)]" None]
  from t have "params (snd (first_validation example_net [(images_b, label_0), (images_a, label_0)]
                 None example_notebook)) = params example_notebook"
    by (simp add: pure_read_iff)
  moreover from t have "params (snd (dropout_validation example_net
                 [(images_b, label_0), (images_a, label_0)] example_notebook)) = params example_notebook"
    by (simp add: pure_read_iff)
  moreover from t example_dropout_validation
  have "calls (snd (dropout_validation example_net [(images_b, label_0), (images_a, label_0)]
                   example_notebook))
       = calls example_notebook @ ModelEval
           # concat (replicate (length [(images_b, label_0), (images_a, label_0)]) [Forward False, Criterion])
           @ [ModelTrain]"
    by simp
  ultimately show ?thesis by (simp add: example_dropout_validation)
qed

text \<open>
  The claim as stated, "validation computes output and loss", fails for the first
  validation loop: it completes without one loss computation.
\<close>

theorem first_validation_computes_no_loss:
  "fst (first_validation example_net [(images_a, label_0)] None example_notebook) = Inr 100
   \<and> Criterion \<notin> set (calls (snd (first_validation example_net [(images_a, label_0)] None
                                      example_notebook)))"
  by (simp add: example_first_validation_a)

text \<open>
  C3. The claim is that the reported accuracy is accumulated over the validation batches
  and averaged. The first validation loop assigns (\<open>accuracy = ...\<close>) where the loop of the
  dropout model accumulates (\<open>accuracy += ...\<close>), so it reports the last batch alone. On two
  batches with accuracies 0 and 1 it prints 100 or 0 depending on which comes last; the
  accumulating loop collects 1 over the 2 batches, an average of 1/2. (In general, by
  \<open>first_val_loop_last\<close>, the loop returns what its last batch returns.)
\<close>

theorem first_validation_reports_last_batch:
  "fst (first_validation example_net [(images_b, label_0), (images_a, label_0)] None example_notebook)
     = Inr 100
   \<and> fst (first_validation example_net [(images_a, label_0), (images_b, label_0)] None example_notebook)
     = Inr 0
   \<and> fst (dropout_validation example_net [(images_b, label_0), (images_a, label_0)] example_notebook)
     = Inr (Some \<lparr>shape = [], dtype = FloatT, vals = [1]\<rparr>, Some \<lparr>shape = [], dtype = FloatT, vals = [3]\<rparr>)
   \<and> tensor_div \<lparr>shape = [], dtype = FloatT, vals = [1]\<rparr>
        (length [(images_b, label_0), (images_a, label_0)])
     = \<lparr>shape = [], dtype = FloatT, vals = [1 / 2]\<rparr>"
  by (simp add: example_first_validation_ba example_first_validation_ab example_dropout_validation
      tensor_div_def)

section \<open>Failures\<close>










section \<open>Dropout determinism\<close>

text \<open>
  C9. In evaluation mode the forward pass of the dropout network is the network with the
  dropout lines removed: it does not depend on the random generator, so repeated calls
  agree, whatever the dropout probability. With probability 0 the forward pass in
  training mode does not depend on the generator either and equals the one in evaluation
  mode. With the probability of the notebook, 0.3, two training-mode passes on the same
  input can differ.
\<close>

theorem dropout_determinism:
  "map_sum id fst (NetworkDropOut_forward m False g x) = Network_no_dropout_forward m x
   \<and> map_sum id fst (NetworkDropOut_forward m False g x)
       = map_sum id fst (NetworkDropOut_forward m False g' x)
   \<and> (dropout_p m = 0 \<longrightarrow>
         map_sum id fst (NetworkDropOut_forward m True g x)
           = map_sum id fst (NetworkDropOut_forward m True g' x)
       \<and> map_sum id fst (NetworkDropOut_forward m True g x)
           = map_sum id fst (NetworkDropOut_forward m False g' x))
   \<and> (\<exists>m' x' h h'. dropout_p m' = 3 / 10
         \<and> map_sum id fst (NetworkDropOut_forward m' True h x')
             \<noteq> map_sum id fst (NetworkDropOut_forward m' True h' x'))"
proof -
  have ev: "map_sum id fst (NetworkDropOut_forward m False k x) = Network_no_dropout_forward m x" for k
    by (cases "Network_no_dropout_forward m x") (simp_all add: forward_eval_mode)
  have "dropout_p example_dropout_net = 3 / 10" by (simp add: example_dropout_net_def)
  with example_masks_differ have "\<exists>m' x' h h'. dropout_p m' = 3 / 10
         \<and> map_sum id fst (NetworkDropOut_forward m' True h x')
             \<noteq> map_sum id fst (NetworkDropOut_forward m' True h' x')"
    by blast
  then show ?thesis
    by (simp add: ev forward_train_p0)
qed

theorem dropout_determinism_witness:
  "dropout_p (example_dropout_net\<lparr>dropout_p := 0\<rparr>) = 0
   \<and> map_sum id fst (NetworkDropOut_forward (example_dropout_net\<lparr>dropout_p := 0\<rparr>) True
                       (\<lambda>i. 16777215) example_input)
     = map_sum id fst (NetworkDropOut_forward (example_dropout_net\<lparr>dropout_p := 0\<rparr>) False
                       (\<lambda>i. 0) example_input)"
proof -
  have p: "dropout_p (example_dropout_net\<lparr>dropout_p := 0\<rparr>) = 0" by simp
  from dropout_determinism [of "example_dropout_net\<lparr>dropout_p := 0\<rparr>" "\<lambda>i. 16777215"
      example_input "\<lambda>i. 0"] p
  show ?thesis by blast
qed


end
